theory Spec2Isabelle
  imports Main "HOL-Library.Word" "HOL-Library.Sublist"
begin

section \<open>JavaScript values used by the news aggregator\<close>

text \<open>
  A JavaScript string is a sequence of UTF-16 code units: \<open>length\<close> and
  \<open>substring\<close> count code units, so the model uses lists of 16-bit words.
  ASCII literals of the source are written through \<open>ascii\<close>.
\<close>

type_synonym js_string = "16 word list"

definition ascii :: "string \<Rightarrow> js_string" where
  "ascii s = map of_char s"

text \<open>
  A JavaScript number, as far as the component computes with it: an integer (numbers of
  the source are modelled as unbounded integers) or \<open>NaN\<close>. \<open>Math.max\<close> is
  \<open>NaN\<close> as soon as one argument is, and so is a difference.
\<close>

datatype js_number = Num int | NaN

fun js_max :: "js_number \<Rightarrow> js_number \<Rightarrow> js_number" where
  "js_max (Num a) (Num b) = Num (max a b)"
| "js_max a b = NaN"

fun js_minus :: "js_number \<Rightarrow> js_number \<Rightarrow> js_number" where
  "js_minus (Num a) (Num b) = Num (a - b)"
| "js_minus a b = NaN"

text \<open>
  A thrown value, as far as \<open>retryWithBackoff\<close> inspects it:
  \<open>code\<close> is \<open>error?.details?.code\<close> (\<open>None\<close> when the error, its
  details or the code is missing) and \<open>reset\<close> is \<open>error?.details?.reset\<close>:
  \<open>None\<close> when the field is missing or falsy; \<open>Some (ResetAt t)\<close> when it is
  truthy and denotes a date, \<open>t\<close> being \<open>new Date(reset).getTime()\<close> in
  milliseconds; \<open>Some ResetUnparsable\<close> when it is truthy and \<open>new Date\<close> cannot
  read it as a date, so that \<open>getTime()\<close> is \<open>NaN\<close>.
\<close>

datatype reset_value = ResetAt int | ResetUnparsable

fun getTime :: "reset_value \<Rightarrow> js_number" where
  "getTime (ResetAt t) = Num t"
| "getTime ResetUnparsable = NaN"

record js_error =
  message :: js_string
  code :: "string option"
  reset :: "reset_value option"

definition TypeError :: js_error where
  "TypeError = \<lparr>message = ascii ''TypeError'', code = None, reset = None\<rparr>"

subsection \<open>types/news.ts\<close>

text \<open>
  \<open>SearchResult\<close> with the fields \<open>fetchNews\<close> reads. The array that the
  search service returns is typed \<open>any[]\<close>; an element that is \<open>null\<close> or
  \<open>undefined\<close> is \<open>None\<close>.
\<close>

record SearchResult =
  title :: js_string
  snippet :: "js_string option"
  description :: "js_string option"
  link :: js_string
  source :: "js_string option"
  displayed_link :: "js_string option"
  date :: "js_string option"
  thumbnail :: "js_string option"

type_synonym raw_result = "SearchResult option"

record NewsArticle =
  id' :: js_string
  title :: js_string
  originalText :: js_string
  translatedText :: js_string
  summary :: js_string
  publishedAt :: js_string
  source :: js_string
  url :: js_string
  imageUrl :: "js_string option"

section \<open>The environment: clock and external services\<close>

text \<open>
  What the Blink SDK is asked, in order. The answers of the services and the readings of
  the clock are not under the program's control: \<open>clock k\<close> is the value of the
  \<open>k\<close>-th reading of the system time, and each service answers the \<open>n\<close>-th
  request of the run either with a value or by throwing. \<open>toISOString\<close> is the
  platform's \<open>Date.prototype.toISOString\<close> on a timestamp.
\<close>

datatype request =
    Search js_string nat
  | ExtractFromUrl js_string
  | GenerateText js_string nat

record search_response =
  news_results :: "raw_result list option"

record env =
  clock :: "nat \<Rightarrow> int"
  reads :: nat
  toISOString :: "int \<Rightarrow> js_string"
  search_api :: "nat \<Rightarrow> js_string \<Rightarrow> js_error + search_response"
  extract_api :: "nat \<Rightarrow> js_string \<Rightarrow> js_error + js_string"
  generate_api :: "nat \<Rightarrow> js_string \<Rightarrow> js_error + js_string"
  requests :: "request list"

definition Date_now :: "env \<Rightarrow> int \<times> env" where
  "Date_now e = (clock e (reads e), e\<lparr>reads := reads e + 1\<rparr>)"

text \<open>\<open>new Date().toISOString()\<close>: the current time in ISO form.\<close>

definition new_Date_toISOString :: "env \<Rightarrow> js_string \<times> env" where
  "new_Date_toISOString e = (let (t, e') = Date_now e in (toISOString e' t, e'))"

definition blink_data_search :: "js_string \<Rightarrow> nat \<Rightarrow> env \<Rightarrow> (js_error + search_response) \<times> env" where
  "blink_data_search query limit e =
     (search_api e (length (requests e)) query, e\<lparr>requests := requests e @ [Search query limit]\<rparr>)"

definition blink_data_extractFromUrl :: "js_string \<Rightarrow> env \<Rightarrow> (js_error + js_string) \<times> env" where
  "blink_data_extractFromUrl u e =
     (extract_api e (length (requests e)) u, e\<lparr>requests := requests e @ [ExtractFromUrl u]\<rparr>)"

definition blink_ai_generateText :: "js_string \<Rightarrow> nat \<Rightarrow> env \<Rightarrow> (js_error + js_string) \<times> env" where
  "blink_ai_generateText prompt maxTokens e =
     (generate_api e (length (requests e)) prompt, e\<lparr>requests := requests e @ [GenerateText prompt maxTokens]\<rparr>)"

text \<open>
  The state of a run: the environment, and the trace of what the component itself did.
  \<open>Invoked i r\<close>: attempt \<open>i\<close> of \<open>retryWithBackoff\<close> called the wrapped
  operation, which returned (\<open>None\<close>) or threw \<open>e\<close> (\<open>Some e\<close>);
  \<open>Delayed ms\<close>: \<open>delay(ms)\<close> was awaited, \<open>ms\<close> being the number passed
  to \<open>setTimeout\<close> (with \<open>NaN\<close> the timer fires at once). The wrapped
  operation acts on the environment only.
\<close>

datatype event = Invoked nat "js_error option" | Delayed js_number

record state =
  env :: env
  trace :: "event list"

definition delay :: "js_number \<Rightarrow> state \<Rightarrow> state" where
  "delay ms s = s\<lparr>trace := trace s @ [Delayed ms]\<rparr>"

section \<open>retryWithBackoff\<close>

text \<open>Lines 24-26: the wait computed from the caught error at attempt \<open>i\<close>.\<close>

definition waitTime :: "js_error \<Rightarrow> int \<Rightarrow> nat \<Rightarrow> state \<Rightarrow> js_number \<times> state" where
  "waitTime error baseDelay i s =
     (case reset error of
        Some r \<Rightarrow>
          (let (now, e') = Date_now (env s) in (js_minus (getTime r) (Num now), s\<lparr>env := e'\<rparr>))
      | None \<Rightarrow> (Num (baseDelay * 2 ^ i), s))"

function retry_loop ::
  "(env \<Rightarrow> (js_error + 'a) \<times> env) \<Rightarrow> int \<Rightarrow> int \<Rightarrow> nat \<Rightarrow> state \<Rightarrow> (js_error + 'a option) \<times> state" where
  "retry_loop fn maxRetries baseDelay i s =
     (if int i < maxRetries then
        (case fn (env s) of
           (Inr v, e1) \<Rightarrow> (Inr (Some v), \<lparr>env = e1, trace = trace s @ [Invoked i None]\<rparr>)
         | (Inl error, e1) \<Rightarrow>
             (let s1 = \<lparr>env = e1, trace = trace s @ [Invoked i (Some error)]\<rparr> in
              if code error = Some ''RATE_LIMIT_EXCEEDED'' \<and> int i < maxRetries - 1 then
                (let (w, s2) = waitTime error baseDelay i s1 in
                 retry_loop fn maxRetries baseDelay (i + 1)
                   (delay (js_max w (Num (baseDelay * 2 ^ i))) s2))
              else (Inl error, s1)))
      else (Inr None, s))"
  by pat_completeness auto
termination
  by (relation "measure (\<lambda>(fn, maxRetries, baseDelay, i, s). nat (maxRetries - int i))") auto

definition retryWithBackoff ::
  "(env \<Rightarrow> (js_error + 'a) \<times> env) \<Rightarrow> int \<Rightarrow> int \<Rightarrow> state \<Rightarrow> (js_error + 'a option) \<times> state" where
  "retryWithBackoff fn maxRetries baseDelay s = retry_loop fn maxRetries baseDelay 0 s"

section \<open>String constants of the component\<close>

text \<open>The literals of \<open>NewsAggregator.tsx\<close>, code unit by code unit.\<close>

definition searchQuery1 :: js_string where
  \<open>searchQuery1 =
     [0x0041, 0x0049, 0x0020, 0x4EBA, 0x5DE5, 0x77E5, 0x80FD, 0x0020, 0x6700, 0x65B0, 0x30CB,
      0x30E5, 0x30FC, 0x30B9, 0x0020, 0x0032, 0x0030, 0x0032, 0x0034, 0x0020, 0x004F, 0x0070,
      0x0065, 0x006E, 0x0041, 0x0049, 0x0020, 0x0043, 0x0068, 0x0061, 0x0074, 0x0047, 0x0050,
      0x0054]\<close>

definition searchQuery2 :: js_string where
  \<open>searchQuery2 =
     [0x0067, 0x0065, 0x006E, 0x0065, 0x0072, 0x0061, 0x0074, 0x0069, 0x0076, 0x0065, 0x0020,
      0x0041, 0x0049, 0x0020, 0x751F, 0x6210, 0x0041, 0x0049, 0x0020, 0x6700, 0x65B0, 0x6280,
      0x8853, 0x0020, 0x0047, 0x006F, 0x006F, 0x0067, 0x006C, 0x0065, 0x0020, 0x004D, 0x0069,
      0x0063, 0x0072, 0x006F, 0x0073, 0x006F, 0x0066, 0x0074]\<close>

definition prompt_prefix :: js_string where
  \<open>prompt_prefix =
     [0x4EE5, 0x4E0B, 0x306E, 0x30C6, 0x30AD, 0x30B9, 0x30C8, 0x3092, 0x81EA, 0x7136, 0x306A,
      0x65E5, 0x672C, 0x8A9E, 0x306B, 0x7FFB, 0x8A33, 0x3057, 0x3066, 0x304F, 0x3060, 0x3055,
      0x3044, 0x3002, 0x8981, 0x7D04, 0x3084, 0x7701, 0x7565, 0x306F, 0x305B, 0x305A, 0x3001,
      0x5143, 0x306E, 0x5185, 0x5BB9, 0x3092, 0x305D, 0x306E, 0x307E, 0x307E, 0x7FFB, 0x8A33,
      0x3057, 0x3066, 0x304F, 0x3060, 0x3055, 0x3044, 0x3002, 0x65E2, 0x306B, 0x65E5, 0x672C,
      0x8A9E, 0x306E, 0x5834, 0x5408, 0x306F, 0x305D, 0x306E, 0x307E, 0x307E, 0x8FD4, 0x3057,
      0x3066, 0x304F, 0x3060, 0x3055, 0x3044, 0x3002] @
     [0x000A, 0x000A] @
     [0x30C6, 0x30AD, 0x30B9, 0x30C8, 0x003A] @
     [0x000A]\<close>

definition prompt_suffix :: js_string where
  \<open>prompt_suffix =
     [0x000A, 0x000A] @
     [0x7FFB, 0x8A33, 0x003A]\<close>

definition translation_failed :: js_string where
  \<open>translation_failed =
     [0x7FFB, 0x8A33, 0x306B, 0x5931, 0x6557, 0x3057, 0x307E, 0x3057, 0x305F]\<close>

definition sample1_originalText :: js_string where
  \<open>sample1_originalText =
     ascii ''OpenAI has announced the release of GPT-4 Turbo, a significant update to their flagship language model that promises enhanced reasoning capabilities and substantially reduced costs for developers and businesses.'' @
     [0x000A, 0x000A] @
     ascii ''The new model features improved performance across multiple domains, including better code generation, mathematical reasoning, and creative writing. According to OpenAI's internal benchmarks, GPT-4 Turbo shows a 25% improvement in complex reasoning tasks compared to its predecessor.'' @
     [0x000A, 0x000A] @
     ascii ''Key improvements include:'' @
     [0x000A] @
     ascii ''- Enhanced context window supporting up to 128,000 tokens'' @
     [0x000A] @
     ascii ''- Reduced API pricing by 50% for input tokens and 25% for output tokens'' @
     [0x000A] @
     ascii ''- Improved instruction following and reduced hallucinations'' @
     [0x000A] @
     ascii ''- Better performance on coding tasks and technical documentation'' @
     [0x000A] @
     ascii ''- Enhanced multilingual capabilities'' @
     [0x000A, 0x000A] @
     ascii ''The model is now available through OpenAI's API with immediate access for existing customers. Enterprise customers will receive priority access to the new features, including advanced fine-tuning capabilities and dedicated compute resources.''\<close>

definition sample1_translatedText :: js_string where
  \<open>sample1_translatedText =
     [0x004F, 0x0070, 0x0065, 0x006E, 0x0041, 0x0049, 0x306F, 0x3001, 0x4E3B, 0x529B, 0x8A00,
      0x8A9E, 0x30E2, 0x30C7, 0x30EB, 0x306E, 0x5927, 0x5E45, 0x306A, 0x30A2, 0x30C3, 0x30D7,
      0x30C7, 0x30FC, 0x30C8, 0x3067, 0x3042, 0x308B, 0x0047, 0x0050, 0x0054, 0x002D, 0x0034,
      0x0020, 0x0054, 0x0075, 0x0072, 0x0062, 0x006F, 0x306E, 0x30EA, 0x30EA, 0x30FC, 0x30B9,
      0x3092, 0x767A, 0x8868, 0x3057, 0x307E, 0x3057, 0x305F, 0x3002, 0x3053, 0x306E, 0x30E2,
      0x30C7, 0x30EB, 0x306F, 0x3001, 0x63A8, 0x8AD6, 0x80FD, 0x529B, 0x306E, 0x5411, 0x4E0A,
      0x3068, 0x958B, 0x767A, 0x8005, 0x30FB, 0x4F01, 0x696D, 0x5411, 0x3051, 0x306E, 0x30B3,
      0x30B9, 0x30C8, 0x5927, 0x5E45, 0x524A, 0x6E1B, 0x3092, 0x7D04, 0x675F, 0x3057, 0x3066,
      0x3044, 0x307E, 0x3059, 0x3002] @
     [0x000A, 0x000A] @
     [0x65B0, 0x3057, 0x3044, 0x30E2, 0x30C7, 0x30EB, 0x306F, 0x3001, 0x3088, 0x308A, 0x826F,
      0x3044, 0x30B3, 0x30FC, 0x30C9, 0x751F, 0x6210, 0x3001, 0x6570, 0x5B66, 0x7684, 0x63A8,
      0x8AD6, 0x3001, 0x5275, 0x4F5C, 0x6587, 0x7AE0, 0x306A, 0x3069, 0x3001, 0x8907, 0x6570,
      0x306E, 0x9818, 0x57DF, 0x3067, 0x30D1, 0x30D5, 0x30A9, 0x30FC, 0x30DE, 0x30F3, 0x30B9,
      0x304C, 0x5411, 0x4E0A, 0x3057, 0x3066, 0x3044, 0x307E, 0x3059, 0x3002, 0x004F, 0x0070,
      0x0065, 0x006E, 0x0041, 0x0049, 0x306E, 0x5185, 0x90E8, 0x30D9, 0x30F3, 0x30C1, 0x30DE,
      0x30FC, 0x30AF, 0x306B, 0x3088, 0x308B, 0x3068, 0x3001, 0x0047, 0x0050, 0x0054, 0x002D,
      0x0034, 0x0020, 0x0054, 0x0075, 0x0072, 0x0062, 0x006F, 0x306F, 0x524D, 0x30E2, 0x30C7,
      0x30EB, 0x3068, 0x6BD4, 0x8F03, 0x3057, 0x3066, 0x8907, 0x96D1, 0x306A, 0x63A8, 0x8AD6,
      0x30BF, 0x30B9, 0x30AF, 0x3067, 0x0032, 0x0035, 0x0025, 0x306E, 0x6539, 0x5584, 0x3092,
      0x793A, 0x3057, 0x3066, 0x3044, 0x307E, 0x3059, 0x3002] @
     [0x000A, 0x000A] @
     [0x4E3B, 0x306A, 0x6539, 0x5584, 0x70B9, 0xFF1A] @
     [0x000A] @
     [0x002D, 0x0020, 0x6700, 0x5927, 0x0031, 0x0032, 0x0038, 0x002C, 0x0030, 0x0030, 0x0030,
      0x30C8, 0x30FC, 0x30AF, 0x30F3, 0x3092, 0x30B5, 0x30DD, 0x30FC, 0x30C8, 0x3059, 0x308B,
      0x62E1, 0x5F35, 0x3055, 0x308C, 0x305F, 0x30B3, 0x30F3, 0x30C6, 0x30AD, 0x30B9, 0x30C8,
      0x30A6, 0x30A3, 0x30F3, 0x30C9, 0x30A6] @
     [0x000A] @
     [0x002D, 0x0020, 0x5165, 0x529B, 0x30C8, 0x30FC, 0x30AF, 0x30F3, 0x3067, 0x0035, 0x0030,
      0x0025, 0x3001, 0x51FA, 0x529B, 0x30C8, 0x30FC, 0x30AF, 0x30F3, 0x3067, 0x0032, 0x0035,
      0x0025, 0x306E, 0x0041, 0x0050, 0x0049, 0x4FA1, 0x683C, 0x524A, 0x6E1B] @
     [0x000A] @
     [0x002D, 0x0020, 0x6307, 0x793A, 0x8FFD, 0x5F93, 0x306E, 0x6539, 0x5584, 0x3068, 0x5E7B,
      0x899A, 0x306E, 0x6E1B, 0x5C11] @
     [0x000A] @
     [0x002D, 0x0020, 0x30B3, 0x30FC, 0x30C7, 0x30A3, 0x30F3, 0x30B0, 0x30BF, 0x30B9, 0x30AF,
      0x3068, 0x6280, 0x8853, 0x6587, 0x66F8, 0x3067, 0x306E, 0x30D1, 0x30D5, 0x30A9, 0x30FC,
      0x30DE, 0x30F3, 0x30B9, 0x5411, 0x4E0A] @
     [0x000A] @
     [0x002D, 0x0020, 0x591A, 0x8A00, 0x8A9E, 0x6A5F, 0x80FD, 0x306E, 0x5F37, 0x5316] @
     [0x000A, 0x000A] @
     [0x3053, 0x306E, 0x30E2, 0x30C7, 0x30EB, 0x306F, 0x73FE, 0x5728, 0x3001, 0x004F, 0x0070,
      0x0065, 0x006E, 0x0041, 0x0049, 0x306E, 0x0041, 0x0050, 0x0049, 0x3092, 0x901A, 0x3058,
      0x3066, 0x65E2, 0x5B58, 0x9867, 0x5BA2, 0x306B, 0x5373, 0x5EA7, 0x306B, 0x30A2, 0x30AF,
      0x30BB, 0x30B9, 0x53EF, 0x80FD, 0x3067, 0x3059, 0x3002, 0x30A8, 0x30F3, 0x30BF, 0x30FC,
      0x30D7, 0x30E9, 0x30A4, 0x30BA, 0x9867, 0x5BA2, 0x306F, 0x3001, 0x9AD8, 0x5EA6, 0x306A,
      0x30D5, 0x30A1, 0x30A4, 0x30F3, 0x30C1, 0x30E5, 0x30FC, 0x30CB, 0x30F3, 0x30B0, 0x6A5F,
      0x80FD, 0x3084, 0x5C02, 0x7528, 0x8A08, 0x7B97, 0x30EA, 0x30BD, 0x30FC, 0x30B9, 0x3092,
      0x542B, 0x3080, 0x65B0, 0x6A5F, 0x80FD, 0x3078, 0x306E, 0x512A, 0x5148, 0x30A2, 0x30AF,
      0x30BB, 0x30B9, 0x3092, 0x53D7, 0x3051, 0x3089, 0x308C, 0x307E, 0x3059, 0x3002]\<close>

definition sample2_originalText :: js_string where
  \<open>sample2_originalText =
     ascii ''Google has unveiled Gemini 2.0, its most advanced AI model yet, featuring groundbreaking multimodal capabilities that can process text, images, audio, and video simultaneously. The new model represents a significant leap forward in AI technology and sets new benchmarks for performance across various tasks.'' @
     [0x000A, 0x000A] @
     ascii ''Gemini 2.0 introduces several revolutionary features:'' @
     [0x000A] @
     ascii ''- Native multimodal understanding without separate processing pipelines'' @
     [0x000A] @
     ascii ''- Real-time video analysis and generation capabilities'' @
     [0x000A] @
     ascii ''- Advanced reasoning across different media types'' @
     [0x000A] @
     ascii ''- Improved safety measures and alignment protocols'' @
     [0x000A] @
     ascii ''- Enhanced efficiency with reduced computational requirements'' @
     [0x000A, 0x000A] @
     ascii ''The model has been integrated into Google's suite of products, including Search, Assistant, and Workspace applications. Early testing shows remarkable improvements in complex reasoning tasks, with the model demonstrating human-level performance in many areas.'' @
     [0x000A, 0x000A] @
     ascii ''"Gemini 2.0 represents our vision of AI that truly understands the world as humans do," said Sundar Pichai, CEO of Google. "This is not just about processing different types of data, but about creating genuine understanding across modalities."''\<close>

definition sample2_translatedText :: js_string where
  \<open>sample2_translatedText =
     [0x0047, 0x006F, 0x006F, 0x0067, 0x006C, 0x0065, 0x306F, 0x3001, 0x30C6, 0x30AD, 0x30B9,
      0x30C8, 0x3001, 0x753B, 0x50CF, 0x3001, 0x97F3, 0x58F0, 0x3001, 0x52D5, 0x753B, 0x3092,
      0x540C, 0x6642, 0x306B, 0x51E6, 0x7406, 0x3067, 0x304D, 0x308B, 0x753B, 0x671F, 0x7684,
      0x306A, 0x30DE, 0x30EB, 0x30C1, 0x30E2, 0x30FC, 0x30C0, 0x30EB, 0x6A5F, 0x80FD, 0x3092,
      0x7279, 0x5FB4, 0x3068, 0x3059, 0x308B, 0x6700, 0x3082, 0x9AD8, 0x5EA6, 0x306A, 0x0041,
      0x0049, 0x30E2, 0x30C7, 0x30EB, 0x3001, 0x0047, 0x0065, 0x006D, 0x0069, 0x006E, 0x0069,
      0x0020, 0x0032, 0x002E, 0x0030, 0x3092, 0x767A, 0x8868, 0x3057, 0x307E, 0x3057, 0x305F,
      0x3002, 0x3053, 0x306E, 0x65B0, 0x3057, 0x3044, 0x30E2, 0x30C7, 0x30EB, 0x306F, 0x0041,
      0x0049, 0x6280, 0x8853, 0x306B, 0x304A, 0x3051, 0x308B, 0x5927, 0x304D, 0x306A, 0x98DB,
      0x8E8D, 0x3092, 0x8868, 0x3057, 0x3001, 0x69D8, 0x3005, 0x306A, 0x30BF, 0x30B9, 0x30AF,
      0x3067, 0x30D1, 0x30D5, 0x30A9, 0x30FC, 0x30DE, 0x30F3, 0x30B9, 0x306E, 0x65B0, 0x3057,
      0x3044, 0x30D9, 0x30F3, 0x30C1, 0x30DE, 0x30FC, 0x30AF, 0x3092, 0x8A2D, 0x5B9A, 0x3057,
      0x3066, 0x3044, 0x307E, 0x3059, 0x3002] @
     [0x000A, 0x000A] @
     [0x0047, 0x0065, 0x006D, 0x0069, 0x006E, 0x0069, 0x0020, 0x0032, 0x002E, 0x0030, 0x306F,
      0x3044, 0x304F, 0x3064, 0x304B, 0x306E, 0x9769, 0x65B0, 0x7684, 0x306A, 0x6A5F, 0x80FD,
      0x3092, 0x5C0E, 0x5165, 0x3057, 0x3066, 0x3044, 0x307E, 0x3059, 0xFF1A] @
     [0x000A] @
     [0x002D, 0x0020, 0x5225, 0x3005, 0x306E, 0x51E6, 0x7406, 0x30D1, 0x30A4, 0x30D7, 0x30E9,
      0x30A4, 0x30F3, 0x3092, 0x5FC5, 0x8981, 0x3068, 0x3057, 0x306A, 0x3044, 0x30CD, 0x30A4,
      0x30C6, 0x30A3, 0x30D6, 0x30DE, 0x30EB, 0x30C1, 0x30E2, 0x30FC, 0x30C0, 0x30EB, 0x7406,
      0x89E3] @
     [0x000A] @
     [0x002D, 0x0020, 0x30EA, 0x30A2, 0x30EB, 0x30BF, 0x30A4, 0x30E0, 0x52D5, 0x753B, 0x5206,
      0x6790, 0x3068, 0x751F, 0x6210, 0x6A5F, 0x80FD] @
     [0x000A] @
     [0x002D, 0x0020, 0x7570, 0x306A, 0x308B, 0x30E1, 0x30C7, 0x30A3, 0x30A2, 0x30BF, 0x30A4,
      0x30D7, 0x9593, 0x3067, 0x306E, 0x9AD8, 0x5EA6, 0x306A, 0x63A8, 0x8AD6] @
     [0x000A] @
     [0x002D, 0x0020, 0x6539, 0x5584, 0x3055, 0x308C, 0x305F, 0x5B89, 0x5168, 0x5BFE, 0x7B56,
      0x3068, 0x6574, 0x5408, 0x30D7, 0x30ED, 0x30C8, 0x30B3, 0x30EB] @
     [0x000A] @
     [0x002D, 0x0020, 0x8A08, 0x7B97, 0x8981, 0x4EF6, 0x3092, 0x524A, 0x6E1B, 0x3057, 0x305F,
      0x52B9, 0x7387, 0x6027, 0x306E, 0x5411, 0x4E0A] @
     [0x000A, 0x000A] @
     [0x3053, 0x306E, 0x30E2, 0x30C7, 0x30EB, 0x306F, 0x3001, 0x691C, 0x7D22, 0x3001, 0x30A2,
      0x30B7, 0x30B9, 0x30BF, 0x30F3, 0x30C8, 0x3001, 0x0057, 0x006F, 0x0072, 0x006B, 0x0073,
      0x0070, 0x0061, 0x0063, 0x0065, 0x30A2, 0x30D7, 0x30EA, 0x30B1, 0x30FC, 0x30B7, 0x30E7,
      0x30F3, 0x3092, 0x542B, 0x3080, 0x0047, 0x006F, 0x006F, 0x0067, 0x006C, 0x0065, 0x306E,
      0x88FD, 0x54C1, 0x30B9, 0x30A4, 0x30FC, 0x30C8, 0x306B, 0x7D71, 0x5408, 0x3055, 0x308C,
      0x3066, 0x3044, 0x307E, 0x3059, 0x3002, 0x521D, 0x671F, 0x30C6, 0x30B9, 0x30C8, 0x3067,
      0x306F, 0x8907, 0x96D1, 0x306A, 0x63A8, 0x8AD6, 0x30BF, 0x30B9, 0x30AF, 0x3067, 0x9855,
      0x8457, 0x306A, 0x6539, 0x5584, 0x304C, 0x793A, 0x3055, 0x308C, 0x3001, 0x591A, 0x304F,
      0x306E, 0x5206, 0x91CE, 0x3067, 0x4EBA, 0x9593, 0x30EC, 0x30D9, 0x30EB, 0x306E, 0x30D1,
      0x30D5, 0x30A9, 0x30FC, 0x30DE, 0x30F3, 0x30B9, 0x3092, 0x5B9F, 0x8A3C, 0x3057, 0x3066,
      0x3044, 0x307E, 0x3059, 0x3002] @
     [0x000A, 0x000A] @
     [0x300C, 0x0047, 0x0065, 0x006D, 0x0069, 0x006E, 0x0069, 0x0020, 0x0032, 0x002E, 0x0030,
      0x306F, 0x3001, 0x4EBA, 0x9593, 0x3068, 0x540C, 0x3058, 0x3088, 0x3046, 0x306B, 0x4E16,
      0x754C, 0x3092, 0x771F, 0x306B, 0x7406, 0x89E3, 0x3059, 0x308B, 0x0041, 0x0049, 0x3068,
      0x3044, 0x3046, 0x6211, 0x3005, 0x306E, 0x30D3, 0x30B8, 0x30E7, 0x30F3, 0x3092, 0x8868,
      0x3057, 0x3066, 0x3044, 0x307E, 0x3059, 0x300D, 0x3068, 0x3001, 0x0047, 0x006F, 0x006F,
      0x0067, 0x006C, 0x0065, 0x306E, 0x0043, 0x0045, 0x004F, 0x3067, 0x3042, 0x308B, 0x30B5,
      0x30F3, 0x30C0, 0x30FC, 0x30FB, 0x30D4, 0x30C1, 0x30E3, 0x30A4, 0x306F, 0x8FF0, 0x3079,
      0x307E, 0x3057, 0x305F, 0x3002, 0x300C, 0x3053, 0x308C, 0x306F, 0x5358, 0x306B, 0x7570,
      0x306A, 0x308B, 0x30BF, 0x30A4, 0x30D7, 0x306E, 0x30C7, 0x30FC, 0x30BF, 0x3092, 0x51E6,
      0x7406, 0x3059, 0x308B, 0x3053, 0x3068, 0x3067, 0x306F, 0x306A, 0x304F, 0x3001, 0x30E2,
      0x30C0, 0x30EA, 0x30C6, 0x30A3, 0x9593, 0x3067, 0x306E, 0x771F, 0x306E, 0x7406, 0x89E3,
      0x3092, 0x5275, 0x9020, 0x3059, 0x308B, 0x3053, 0x3068, 0x3067, 0x3059, 0x3002, 0x300D]\<close>

definition sample3_originalText :: js_string where
  \<open>sample3_originalText =
     ascii ''Microsoft has announced a significant update to its Copilot AI assistant, introducing advanced reasoning capabilities that promise to transform how users interact with AI-powered productivity tools. The update brings enhanced problem-solving abilities and more sophisticated understanding of complex tasks.'' @
     [0x000A, 0x000A] @
     ascii ''The new reasoning engine can now handle multi-step problems, analyze complex data relationships, and provide detailed explanations for its recommendations. This represents a major leap forward from previous versions that primarily focused on text generation and basic task automation.'' @
     [0x000A, 0x000A] @
     ascii ''Enhanced capabilities include:'' @
     [0x000A] @
     ascii ''- Advanced mathematical and logical reasoning'' @
     [0x000A] @
     ascii ''- Complex data analysis and visualization suggestions'' @
     [0x000A] @
     ascii ''- Multi-document synthesis and comparison'' @
     [0x000A] @
     ascii ''- Improved code debugging and optimization recommendations'' @
     [0x000A] @
     ascii ''- Enhanced natural language understanding for technical queries'' @
     [0x000A, 0x000A] @
     ascii ''The update also introduces a new "Reasoning Mode" that allows users to see the AI's thought process step-by-step. This transparency feature helps users understand how Copilot arrives at its conclusions and builds trust in AI-generated recommendations.''\<close>

definition sample3_translatedText :: js_string where
  \<open>sample3_translatedText =
     [0x004D, 0x0069, 0x0063, 0x0072, 0x006F, 0x0073, 0x006F, 0x0066, 0x0074, 0x306F, 0x3001,
      0x0041, 0x0049, 0x642D, 0x8F09, 0x751F, 0x7523, 0x6027, 0x30C4, 0x30FC, 0x30EB, 0x3068,
      0x306E, 0x30E6, 0x30FC, 0x30B6, 0x30FC, 0x30A4, 0x30F3, 0x30BF, 0x30E9, 0x30AF, 0x30B7,
      0x30E7, 0x30F3, 0x3092, 0x5909, 0x9769, 0x3059, 0x308B, 0x3053, 0x3068, 0x3092, 0x7D04,
      0x675F, 0x3059, 0x308B, 0x9AD8, 0x5EA6, 0x306A, 0x63A8, 0x8AD6, 0x6A5F, 0x80FD, 0x3092,
      0x5C0E, 0x5165, 0x3057, 0x3001, 0x0043, 0x006F, 0x0070, 0x0069, 0x006C, 0x006F, 0x0074,
      0x0041, 0x0049, 0x30A2, 0x30B7, 0x30B9, 0x30BF, 0x30F3, 0x30C8, 0x306E, 0x5927, 0x5E45,
      0x306A, 0x30A2, 0x30C3, 0x30D7, 0x30C7, 0x30FC, 0x30C8, 0x3092, 0x767A, 0x8868, 0x3057,
      0x307E, 0x3057, 0x305F, 0x3002, 0x3053, 0x306E, 0x30A2, 0x30C3, 0x30D7, 0x30C7, 0x30FC,
      0x30C8, 0x306F, 0x3001, 0x5F37, 0x5316, 0x3055, 0x308C, 0x305F, 0x554F, 0x984C, 0x89E3,
      0x6C7A, 0x80FD, 0x529B, 0x3068, 0x8907, 0x96D1, 0x306A, 0x30BF, 0x30B9, 0x30AF, 0x306E,
      0x3088, 0x308A, 0x6D17, 0x7DF4, 0x3055, 0x308C, 0x305F, 0x7406, 0x89E3, 0x3092, 0x3082,
      0x305F, 0x3089, 0x3057, 0x307E, 0x3059, 0x3002] @
     [0x000A, 0x000A] @
     [0x65B0, 0x3057, 0x3044, 0x63A8, 0x8AD6, 0x30A8, 0x30F3, 0x30B8, 0x30F3, 0x306F, 0x3001,
      0x591A, 0x6BB5, 0x968E, 0x306E, 0x554F, 0x984C, 0x3092, 0x51E6, 0x7406, 0x3057, 0x3001,
      0x8907, 0x96D1, 0x306A, 0x30C7, 0x30FC, 0x30BF, 0x95A2, 0x4FC2, 0x3092, 0x5206, 0x6790,
      0x3057, 0x3001, 0x305D, 0x306E, 0x63A8, 0x85A6, 0x4E8B, 0x9805, 0x306B, 0x3064, 0x3044,
      0x3066, 0x8A73, 0x7D30, 0x306A, 0x8AAC, 0x660E, 0x3092, 0x63D0, 0x4F9B, 0x3067, 0x304D,
      0x308B, 0x3088, 0x3046, 0x306B, 0x306A, 0x308A, 0x307E, 0x3057, 0x305F, 0x3002, 0x3053,
      0x308C, 0x306F, 0x3001, 0x4E3B, 0x306B, 0x30C6, 0x30AD, 0x30B9, 0x30C8, 0x751F, 0x6210,
      0x3068, 0x57FA, 0x672C, 0x7684, 0x306A, 0x30BF, 0x30B9, 0x30AF, 0x81EA, 0x52D5, 0x5316,
      0x306B, 0x7126, 0x70B9, 0x3092, 0x5F53, 0x3066, 0x3066, 0x3044, 0x305F, 0x4EE5, 0x524D,
      0x306E, 0x30D0, 0x30FC, 0x30B8, 0x30E7, 0x30F3, 0x304B, 0x3089, 0x306E, 0x5927, 0x304D,
      0x306A, 0x98DB, 0x8E8D, 0x3092, 0x8868, 0x3057, 0x3066, 0x3044, 0x307E, 0x3059, 0x3002] @
     [0x000A, 0x000A] @
     [0x5F37, 0x5316, 0x3055, 0x308C, 0x305F, 0x6A5F, 0x80FD, 0xFF1A] @
     [0x000A] @
     [0x002D, 0x0020, 0x9AD8, 0x5EA6, 0x306A, 0x6570, 0x5B66, 0x7684, 0x30FB, 0x8AD6, 0x7406,
      0x7684, 0x63A8, 0x8AD6] @
     [0x000A] @
     [0x002D, 0x0020, 0x8907, 0x96D1, 0x306A, 0x30C7, 0x30FC, 0x30BF, 0x5206, 0x6790, 0x3068,
      0x53EF, 0x8996, 0x5316, 0x63D0, 0x6848] @
     [0x000A] @
     [0x002D, 0x0020, 0x8907, 0x6570, 0x6587, 0x66F8, 0x306E, 0x7D71, 0x5408, 0x3068, 0x6BD4,
      0x8F03] @
     [0x000A] @
     [0x002D, 0x0020, 0x6539, 0x5584, 0x3055, 0x308C, 0x305F, 0x30B3, 0x30FC, 0x30C9, 0x30C7,
      0x30D0, 0x30C3, 0x30B0, 0x3068, 0x6700, 0x9069, 0x5316, 0x63A8, 0x85A6] @
     [0x000A] @
     [0x002D, 0x0020, 0x6280, 0x8853, 0x7684, 0x30AF, 0x30A8, 0x30EA, 0x306B, 0x5BFE, 0x3059,
      0x308B, 0x5F37, 0x5316, 0x3055, 0x308C, 0x305F, 0x81EA, 0x7136, 0x8A00, 0x8A9E, 0x7406,
      0x89E3] @
     [0x000A, 0x000A] @
     [0x3053, 0x306E, 0x30A2, 0x30C3, 0x30D7, 0x30C7, 0x30FC, 0x30C8, 0x3067, 0x306F, 0x3001,
      0x30E6, 0x30FC, 0x30B6, 0x30FC, 0x304C, 0x0041, 0x0049, 0x306E, 0x601D, 0x8003, 0x30D7,
      0x30ED, 0x30BB, 0x30B9, 0x3092, 0x6BB5, 0x968E, 0x7684, 0x306B, 0x78BA, 0x8A8D, 0x3067,
      0x304D, 0x308B, 0x65B0, 0x3057, 0x3044, 0x300C, 0x63A8, 0x8AD6, 0x30E2, 0x30FC, 0x30C9,
      0x300D, 0x3082, 0x5C0E, 0x5165, 0x3055, 0x308C, 0x3066, 0x3044, 0x307E, 0x3059, 0x3002,
      0x3053, 0x306E, 0x900F, 0x660E, 0x6027, 0x6A5F, 0x80FD, 0x306F, 0x3001, 0x30E6, 0x30FC,
      0x30B6, 0x30FC, 0x304C, 0x0043, 0x006F, 0x0070, 0x0069, 0x006C, 0x006F, 0x0074, 0x304C,
      0x3069, 0x306E, 0x3088, 0x3046, 0x306B, 0x7D50, 0x8AD6, 0x306B, 0x5230, 0x9054, 0x3059,
      0x308B, 0x304B, 0x3092, 0x7406, 0x89E3, 0x3057, 0x3001, 0x0041, 0x0049, 0x751F, 0x6210,
      0x306E, 0x63A8, 0x85A6, 0x4E8B, 0x9805, 0x3078, 0x306E, 0x4FE1, 0x983C, 0x3092, 0x69CB,
      0x7BC9, 0x3059, 0x308B, 0x306E, 0x306B, 0x5F79, 0x7ACB, 0x3061, 0x307E, 0x3059, 0x3002]\<close>

definition searchQueries :: "js_string list" where
  "searchQueries = [searchQuery1, searchQuery2]"

section \<open>Number formatting in template literals\<close>

text \<open>
  \<open>`${n}`\<close> for an integer \<open>n\<close> below \<open>10^21\<close> in magnitude: the decimal
  digits, with a minus sign for a negative number.
\<close>

definition digit :: "nat \<Rightarrow> 16 word" where
  "digit d = of_nat (48 + d)"

function nat_digits :: "nat \<Rightarrow> js_string" where
  "nat_digits n = (if n < 10 then [digit n] else nat_digits (n div 10) @ [digit (n mod 10)])"
  by pat_completeness auto
termination
  by (relation "measure (\<lambda>n. n)") auto

definition number_toString :: "int \<Rightarrow> js_string" where
  "number_toString n = (if n < 0 then ascii ''-'' @ nat_digits (nat (- n)) else nat_digits (nat n))"

section \<open>fetchNews\<close>

subsection \<open>Lines 52-78: the sequential searches\<close>

text \<open>
  One iteration per query. The whole body of the iteration is inside \<open>try\<close>: when
  the search throws, or when \<open>newsResults\<close> is \<open>undefined\<close> (reading
  \<open>news_results\<close> then throws a TypeError), control goes to the handler at line
  75, which only logs, and the loop continues with the next query.
\<close>

function search_loop :: "js_string list \<Rightarrow> nat \<Rightarrow> raw_result list \<Rightarrow> state \<Rightarrow> raw_result list \<times> state" where
  "search_loop qs i allResults s =
     (if i < length qs then
        (case retryWithBackoff (blink_data_search (qs ! i) 8) 3 1000 s of
           (Inl searchError, s1) \<Rightarrow> search_loop qs (i + 1) allResults s1
         | (Inr None, s1) \<Rightarrow> search_loop qs (i + 1) allResults s1
         | (Inr (Some newsResults), s1) \<Rightarrow>
             (let allResults1 =
                    (case news_results newsResults of
                       Some rs \<Rightarrow> if length rs > 0 then allResults @ rs else allResults
                     | None \<Rightarrow> allResults);
                  s2 = (if int i < int (length qs) - 1 then delay (Num 2000) s1 else s1)
              in search_loop qs (i + 1) allResults1 s2))
      else (allResults, s))"
  by pat_completeness auto
termination
  by (relation "measure (\<lambda>(qs, i, allResults, s). length qs - i)") auto

subsection \<open>Lines 83-85: removing duplicates\<close>

text \<open>
  \<open>r => r.link === result.link\<close>: the left operand is evaluated first; reading
  \<open>link\<close> of \<open>null\<close> or \<open>undefined\<close> throws a TypeError.
\<close>

definition same_link :: "raw_result \<Rightarrow> raw_result \<Rightarrow> js_error + bool" where
  "same_link result r =
     (case r of
        None \<Rightarrow> Inl TypeError
      | Some r' \<Rightarrow>
          (case result of
             None \<Rightarrow> Inl TypeError
           | Some result' \<Rightarrow> Inr (link r' = link result')))"

text \<open>\<open>Array.prototype.findIndex\<close>: the first index whose element satisfies the
  predicate, \<open>-1\<close> when there is none; an exception of the predicate propagates.\<close>

fun findIndex :: "('a \<Rightarrow> js_error + bool) \<Rightarrow> 'a list \<Rightarrow> js_error + int" where
  "findIndex p [] = Inr (- 1)"
| "findIndex p (x # xs) =
     (case p x of
        Inl e \<Rightarrow> Inl e
      | Inr True \<Rightarrow> Inr 0
      | Inr False \<Rightarrow>
          (case findIndex p xs of
             Inl e \<Rightarrow> Inl e
           | Inr k \<Rightarrow> Inr (if k < 0 then - 1 else k + 1)))"

text \<open>\<open>Array.prototype.filter\<close> with the index passed to the predicate; \<open>index\<close>
  is the index of the head of \<open>xs\<close> in the whole array.\<close>

fun filter_from :: "('a \<Rightarrow> nat \<Rightarrow> js_error + bool) \<Rightarrow> nat \<Rightarrow> 'a list \<Rightarrow> js_error + 'a list" where
  "filter_from p index [] = Inr []"
| "filter_from p index (x # xs) =
     (case p x index of
        Inl e \<Rightarrow> Inl e
      | Inr keep \<Rightarrow>
          (case filter_from p (index + 1) xs of
             Inl e \<Rightarrow> Inl e
           | Inr ys \<Rightarrow> Inr (if keep then x # ys else ys)))"

definition first_with_link :: "raw_result list \<Rightarrow> raw_result \<Rightarrow> nat \<Rightarrow> js_error + bool" where
  "first_with_link self result index =
     (case findIndex (same_link result) self of
        Inl e \<Rightarrow> Inl e
      | Inr k \<Rightarrow> Inr (int index = k))"

definition uniqueResults :: "raw_result list \<Rightarrow> js_error + raw_result list" where
  "uniqueResults allResults = filter_from (first_with_link allResults) 0 allResults"

subsection \<open>Lines 94-168: one article per result\<close>

text \<open>\<open>a || b\<close> on optional strings: \<open>a\<close> when it is a non-empty string,
  otherwise \<open>b\<close>, which is a string (\<open>or_default\<close>) or may be missing too
  (\<open>js_or\<close>).\<close>

definition or_default :: "js_string option \<Rightarrow> js_string \<Rightarrow> js_string" where
  "or_default a d = (case a of Some x \<Rightarrow> if x \<noteq> [] then x else d | None \<Rightarrow> d)"

definition js_or :: "js_string option \<Rightarrow> js_string option \<Rightarrow> js_string option" where
  "js_or a b = (case a of Some x \<Rightarrow> if x \<noteq> [] then Some x else b | None \<Rightarrow> b)"

text \<open>Line 101: \<open>result.snippet || result.description || ''\<close>.\<close>

definition seedContent :: "SearchResult \<Rightarrow> js_string" where
  "seedContent result = or_default (snippet result) (or_default (description result) [])"

text \<open>Lines 104-118. \<open>substring(0, 2000)\<close> is the first 2000 code units.\<close>

definition extractContent :: "nat \<Rightarrow> SearchResult \<Rightarrow> js_string \<Rightarrow> state \<Rightarrow> js_string \<times> state" where
  "extractContent i result fullContent s =
     (if length fullContent < 200 \<and> i < 3 then
        (case retryWithBackoff (blink_data_extractFromUrl (link result)) 3 1000 s of
           (Inr (Some extractedContent), s1) \<Rightarrow>
             (if length extractedContent > 200 then (take 2000 extractedContent, s1)
              else (fullContent, s1))
         | (Inr None, s1) \<Rightarrow> (fullContent, s1)
         | (Inl extractError, s1) \<Rightarrow> (fullContent, s1))
      else (fullContent, s))"

text \<open>Lines 121-143. When \<open>retryWithBackoff\<close> resolves with \<open>undefined\<close>,
  reading \<open>translation.text\<close> throws inside the \<open>try\<close>.\<close>

definition translate :: "js_string \<Rightarrow> state \<Rightarrow> js_string \<times> state" where
  "translate fullContent s =
     (if length fullContent > 50 then
        (case retryWithBackoff
                (blink_ai_generateText (prompt_prefix @ fullContent @ prompt_suffix) 1000) 3 1000
                (delay (Num 1500) s) of
           (Inr (Some translation), s1) \<Rightarrow> (translation, s1)
         | (Inr None, s1) \<Rightarrow> (translation_failed, s1)
         | (Inl translateError, s1) \<Rightarrow> (translation_failed, s1))
      else ([], s))"

text \<open>Lines 145-155. The properties are evaluated in order: the clock is read for the
  identifier, then again for \<open>publishedAt\<close> when the result has no date.\<close>

definition article_id :: "int \<Rightarrow> nat \<Rightarrow> js_string" where
  "article_id now i = ascii ''article-'' @ number_toString now @ ascii ''-'' @ number_toString (int i)"

definition makeArticle :: "nat \<Rightarrow> SearchResult \<Rightarrow> js_string \<Rightarrow> js_string \<Rightarrow> env \<Rightarrow> NewsArticle \<times> env" where
  "makeArticle i result fullContent translated e =
     (let (now, e1) = Date_now e;
          (published, e2) =
            (case date result of
               Some d \<Rightarrow> if d \<noteq> [] then (d, e1) else new_Date_toISOString e1
             | None \<Rightarrow> new_Date_toISOString e1)
      in (\<lparr>id' = article_id now i,
           title = SearchResult.title result,
           originalText = fullContent,
           translatedText = translated,
           summary = [],
           publishedAt = published,
           source =
             or_default (SearchResult.source result)
               (or_default (displayed_link result) (ascii ''Web'')),
           url = link result,
           imageUrl = js_or (thumbnail result) None\<rparr>, e2))"

definition processResult :: "nat \<Rightarrow> SearchResult \<Rightarrow> state \<Rightarrow> NewsArticle \<times> state" where
  "processResult i result s =
     (let (fullContent, s1) = extractContent i result (seedContent result) s;
          (translated, s2) = translate fullContent s1;
          (article, e3) = makeArticle i result fullContent translated (env s2)
      in (article, s2\<lparr>env := e3\<rparr>))"

text \<open>
  The loop of line 94. \<open>uniqueResults[i]\<close> is \<open>undefined\<close> out of range.
  For a result that is \<open>null\<close> or \<open>undefined\<close> the first statement of the
  \<open>try\<close> throws, and so does the template literal of the handler at line 166: the
  error leaves the loop. For any other result every statement that can throw is inside
  one of the inner handlers, so the body completes and the handler at line 165 is not
  entered.
\<close>

function process_loop ::
  "raw_result list \<Rightarrow> nat \<Rightarrow> nat \<Rightarrow> NewsArticle list \<Rightarrow> state \<Rightarrow> (js_error + NewsArticle list) \<times> state" where
  "process_loop uniqueRs maxArticles i processedArticles s =
     (if i < maxArticles then
        (case (if i < length uniqueRs then uniqueRs ! i else None) of
           None \<Rightarrow> (Inl TypeError, s)
         | Some result \<Rightarrow>
             (let (article, s1) = processResult i result s;
                  s2 = (if int i < int maxArticles - 1 then delay (Num 2000) s1 else s1)
              in process_loop uniqueRs maxArticles (i + 1) (processedArticles @ [article]) s2))
      else (Inr processedArticles, s))"
  by pat_completeness auto
termination
  by (relation "measure (\<lambda>(uniqueRs, maxArticles, i, processedArticles, s). maxArticles - i)") auto

subsection \<open>Lines 178-276: the sample articles\<close>

definition sampleArticles :: "env \<Rightarrow> NewsArticle list \<times> env" where
  "sampleArticles e =
     (let (published1, e1) = new_Date_toISOString e;
          (published2, e2) = new_Date_toISOString e1;
          (published3, e3) = new_Date_toISOString e2
      in ([\<lparr>id' = ascii ''sample-1'',
             title = ascii ''OpenAI Releases GPT-4 Turbo with Enhanced Capabilities and Reduced Costs'',
             originalText = sample1_originalText,
             translatedText = sample1_translatedText,
             summary = [],
             publishedAt = published1,
             source = ascii ''OpenAI Blog'',
             url = ascii ''https://openai.com/blog/gpt-4-turbo'',
             imageUrl = None\<rparr>,
           \<lparr>id' = ascii ''sample-2'',
             title = ascii ''Google Announces Gemini 2.0 with Multimodal AI Capabilities'',
             originalText = sample2_originalText,
             translatedText = sample2_translatedText,
             summary = [],
             publishedAt = published2,
             source = ascii ''Google AI Blog'',
             url = ascii ''https://ai.googleblog.com/gemini-2-0'',
             imageUrl = None\<rparr>,
           \<lparr>id' = ascii ''sample-3'',
             title = ascii ''Microsoft Copilot Gets Major Update with Advanced AI Reasoning'',
             originalText = sample3_originalText,
             translatedText = sample3_translatedText,
             summary = [],
             publishedAt = published3,
             source = ascii ''Microsoft News'',
             url = ascii ''https://news.microsoft.com/copilot-reasoning-update'',
             imageUrl = None\<rparr>], e3))"

subsection \<open>Lines 37-280: the pipeline\<close>

text \<open>
  What \<open>fetchNews\<close> leaves in the component's state: the batch passed to
  \<open>setArticles\<close>, and the value caught by the handler of line 173 (from which the
  error banner is built), if it was entered.
\<close>

record outcome =
  articles :: "NewsArticle list"
  caught :: "js_error option"

definition showSamples :: "js_error \<Rightarrow> state \<Rightarrow> outcome \<times> state" where
  "showSamples err s =
     (let (sampleArts, e') = sampleArticles (env s)
      in (\<lparr>articles = sampleArts, caught = Some err\<rparr>, s\<lparr>env := e'\<rparr>))"

definition fetchNews :: "state \<Rightarrow> outcome \<times> state" where
  "fetchNews s =
     (let (allResults, s1) = search_loop searchQueries 0 [] s in
      case uniqueResults allResults of
        Inl err \<Rightarrow> showSamples err s1
      | Inr uniqueRs \<Rightarrow>
          (let maxArticles = min 6 (length uniqueRs) in
           case process_loop uniqueRs maxArticles 0 [] s1 of
             (Inl err, s2) \<Rightarrow> showSamples err s2
           | (Inr processedArticles, s2) \<Rightarrow> (\<lparr>articles = processedArticles, caught = None\<rparr>, s2)))"

section \<open>Reading a trace\<close>

text \<open>The attempts of a trace, with their outcomes, and the delays, both in order.\<close>

fun invocations :: "event list \<Rightarrow> (nat \<times> js_error option) list" where
  "invocations [] = []"
| "invocations (Invoked i r # evs) = (i, r) # invocations evs"
| "invocations (Delayed ms # evs) = invocations evs"

fun delays :: "event list \<Rightarrow> js_number list" where
  "delays [] = []"
| "delays (Invoked i r # evs) = delays evs"
| "delays (Delayed ms # evs) = ms # delays evs"

definition rate_limited :: "js_error \<Rightarrow> bool" where
  "rate_limited e = (code e = Some ''RATE_LIMIT_EXCEEDED'')"

text \<open>
  The events of one call of the retry loop entered at attempt \<open>i\<close>: the attempts are
  numbered consecutively and stay below \<open>m\<close>, every attempt but the last threw a
  rate-limit error while attempts remained, and the last attempt decides the result.
\<close>

definition run_ok :: "int \<Rightarrow> nat \<Rightarrow> (js_error + 'a option) \<Rightarrow> event list \<Rightarrow> bool" where
  "run_ok m i r evs \<longleftrightarrow>
     map fst (invocations evs) = [i..<i + length (invocations evs)] \<and>
     (invocations evs \<noteq> [] \<longrightarrow> int (i + length (invocations evs)) \<le> m) \<and>
     (\<forall>(j, out) \<in> set (butlast (invocations evs)).
         \<exists>e. out = Some e \<and> rate_limited e \<and> int j < m - 1) \<and>
     (case invocations evs of
        [] \<Rightarrow> r = Inr None \<and> \<not> int i < m
      | _ \<Rightarrow>
          (case last (invocations evs) of
             (j, Some e) \<Rightarrow> r = Inl e \<and> \<not> (rate_limited e \<and> int j < m - 1)
           | (j, None) \<Rightarrow> (\<exists>v. r = Inr (Some v))))"

text \<open>
  What lines 24-29 pass to \<open>delay\<close> at attempt \<open>i\<close>, for the reset of the caught
  error and the clock reading \<open>now\<close>: with a reset that denotes a date, the larger of
  the time left until the reset and the exponential backoff; without a reset, the
  exponential backoff; with a reset that denotes no date, \<open>NaN\<close>.
\<close>

definition wait_interval :: "int \<Rightarrow> nat \<Rightarrow> reset_value option \<Rightarrow> int \<Rightarrow> js_number" where
  "wait_interval baseDelay i r now =
     (case r of
        Some (ResetAt t) \<Rightarrow> Num (max (t - now) (baseDelay * 2 ^ i))
      | Some ResetUnparsable \<Rightarrow> NaN
      | None \<Rightarrow> Num (baseDelay * 2 ^ i))"

text \<open>
  First-wins deduplication as the specification words it: the results at the positions
  where their link occurs for the first time, in ascending position.
\<close>

definition first_seen :: "SearchResult list \<Rightarrow> SearchResult list" where
  "first_seen rs =
     map (\<lambda>i. rs ! i) (filter (\<lambda>i. \<forall>j < i. link (rs ! j) \<noteq> link (rs ! i)) [0..<length rs])"

text \<open>Article \<open>a\<close> was made at position \<open>k\<close> from the raw result \<open>raw\<close>.\<close>

definition made_from :: "nat \<Rightarrow> raw_result \<Rightarrow> NewsArticle \<Rightarrow> bool" where
  "made_from k raw a \<longleftrightarrow>
     (\<exists>result t. raw = Some result \<and> url a = link result \<and>
        NewsArticle.title a = SearchResult.title result \<and> id' a = article_id t k)"

section \<open>Example environments\<close>

text \<open>
  The platform's \<open>toISOString\<close> at the six timestamps whose ISO form the examples
  below state.
\<close>

definition table_toISOString :: "int \<Rightarrow> js_string" where
  "table_toISOString t =
     (if t = 1700000000000 then ascii ''2023-11-14T22:13:20.000Z''
      else if t = 1700000000001 then ascii ''2023-11-14T22:13:20.001Z''
      else if t = 1700000000002 then ascii ''2023-11-14T22:13:20.002Z''
      else if t = 1700086400000 then ascii ''2023-11-15T22:13:20.000Z''
      else if t = 1700086400001 then ascii ''2023-11-15T22:13:20.001Z''
      else if t = 1700086400002 then ascii ''2023-11-15T22:13:20.002Z''
      else [])"

definition rate_limit_error :: "reset_value option \<Rightarrow> js_error" where
  "rate_limit_error r =
     \<lparr>message = ascii ''Rate limit exceeded'', code = Some ''RATE_LIMIT_EXCEEDED'', reset = r\<rparr>"

definition network_error :: js_error where
  "network_error = \<lparr>message = ascii ''Failed to fetch'', code = None, reset = None\<rparr>"

text \<open>Every service answers every request with a rate-limit error carrying the reset
  \<open>r\<close>; the clock starts at 1700000000100 and each reading is 100 ms later.\<close>

definition busy_env :: "reset_value option \<Rightarrow> env" where
  "busy_env r =
     \<lparr>clock = (\<lambda>k. 1700000000100 + 100 * int k), reads = 0, toISOString = table_toISOString,
      search_api = (\<lambda>n q. Inl (rate_limit_error r)),
      extract_api = (\<lambda>n u. Inl (rate_limit_error r)),
      generate_api = (\<lambda>n p. Inl (rate_limit_error r)),
      requests = []\<rparr>"

definition busy_state :: "reset_value option \<Rightarrow> state" where
  "busy_state r = \<lparr>env = busy_env r, trace = []\<rparr>"

definition busy_url :: js_string where
  "busy_url = ascii ''https://example.com/a''"

text \<open>Where three attempts against \<open>busy_env\<close> end: without a reset, with a
  reset at 1700000001600, and with a reset such as the string \<open>soon\<close>, which
  \<open>new Date\<close> cannot read.\<close>

definition busy_exhausted :: state where
  "busy_exhausted =
     \<lparr>env = (busy_env None)\<lparr>requests :=
               [ExtractFromUrl busy_url, ExtractFromUrl busy_url, ExtractFromUrl busy_url]\<rparr>,
      trace = [Invoked 0 (Some (rate_limit_error None)), Delayed (Num 1000),
               Invoked 1 (Some (rate_limit_error None)), Delayed (Num 2000),
               Invoked 2 (Some (rate_limit_error None))]\<rparr>"

definition busy_exhausted_reset :: state where
  "busy_exhausted_reset =
     \<lparr>env = (busy_env (Some (ResetAt 1700000001600)))\<lparr>reads := 2, requests :=
               [ExtractFromUrl busy_url, ExtractFromUrl busy_url, ExtractFromUrl busy_url]\<rparr>,
      trace = [Invoked 0 (Some (rate_limit_error (Some (ResetAt 1700000001600)))), Delayed (Num 1500),
               Invoked 1 (Some (rate_limit_error (Some (ResetAt 1700000001600)))), Delayed (Num 2000),
               Invoked 2 (Some (rate_limit_error (Some (ResetAt 1700000001600))))]\<rparr>"

definition busy_exhausted_unparsable :: state where
  "busy_exhausted_unparsable =
     \<lparr>env = (busy_env (Some ResetUnparsable))\<lparr>reads := 2, requests :=
               [ExtractFromUrl busy_url, ExtractFromUrl busy_url, ExtractFromUrl busy_url]\<rparr>,
      trace = [Invoked 0 (Some (rate_limit_error (Some ResetUnparsable))), Delayed NaN,
               Invoked 1 (Some (rate_limit_error (Some ResetUnparsable))), Delayed NaN,
               Invoked 2 (Some (rate_limit_error (Some ResetUnparsable)))]\<rparr>"

text \<open>A search result with the given link, title and snippet, dated, nothing else.\<close>

definition demo_result :: "string \<Rightarrow> string \<Rightarrow> js_string option \<Rightarrow> SearchResult" where
  "demo_result l t sn =
     \<lparr>SearchResult.title = ascii t, snippet = sn, description = None, link = ascii l,
      SearchResult.source = None, displayed_link = None,
      date = Some (ascii ''2024-05-01T09:00:00Z''), thumbnail = None\<rparr>"

definition dup_results :: "SearchResult list" where
  "dup_results =
     [demo_result ''https://example.com/a'' ''First'' None,
      demo_result ''https://example.com/b'' ''Second'' None,
      demo_result ''https://example.com/a'' ''Third'' None]"

text \<open>
  A run that exercises the seed of the body. The first query returns four results: one
  with a snippet of 250 code units (and a description), one with an empty snippet and a
  short description, one with neither, and one with a short snippet, at positions 0 to 3.
  The second query returns the link of the second result again. Content extraction
  resolves with 2500 code units for that link and fails for any other; translation
  resolves for the body of 250 code units and fails for any other.
\<close>

definition story_result :: "string \<Rightarrow> string \<Rightarrow> js_string option \<Rightarrow> js_string option \<Rightarrow> raw_result" where
  "story_result l t sn d =
     Some \<lparr>SearchResult.title = ascii t, snippet = sn, description = d, link = ascii l,
      SearchResult.source = None, displayed_link = None,
      date = Some (ascii ''2024-05-01T09:00:00Z''), thumbnail = None\<rparr>"

definition story_env :: env where
  "story_env =
     \<lparr>clock = (\<lambda>k. 1700000000100 + 100 * int k), reads = 0, toISOString = table_toISOString,
      search_api = (\<lambda>n q.
        if q = searchQuery1
        then Inr \<lparr>news_results = Some
               [story_result ''https://example.com/a'' ''Long snippet''
                  (Some (replicate 250 0x0078)) (Some (ascii ''Ignored description'')),
                story_result ''https://example.com/b'' ''Description only''
                  (Some []) (Some (ascii ''Short description'')),
                story_result ''https://example.com/c'' ''Nothing'' None None,
                story_result ''https://example.com/d'' ''Short snippet at position 3''
                  (Some (ascii ''Short snippet'')) None]\<rparr>
        else Inr \<lparr>news_results = Some
               [story_result ''https://example.com/b'' ''Seen before'' None None]\<rparr>),
      extract_api = (\<lambda>n u.
        if u = ascii ''https://example.com/b'' then Inr (replicate 2500 0x0079)
        else Inl network_error),
      generate_api = (\<lambda>n p.
        if p = prompt_prefix @ replicate 250 0x0078 @ prompt_suffix then Inr (ascii ''Translated'')
        else Inl network_error),
      requests = []\<rparr>"

definition story_state :: state where
  "story_state = \<lparr>env = story_env, trace = []\<rparr>"

text \<open>
  The scenario of the specification: two queries return five results each, two links
  are on both lists. No result has a snippet, content extraction fails with a network
  error, and every result carries its date.
\<close>

definition demo_news :: "string \<Rightarrow> raw_result" where
  "demo_news l = Some (demo_result l ''News'' None)"

definition demo_env :: env where
  "demo_env =
     \<lparr>clock = (\<lambda>k. 1700000000100 + 100 * int k), reads = 0, toISOString = table_toISOString,
      search_api = (\<lambda>n q.
        if q = searchQuery1
        then Inr \<lparr>news_results = Some (map demo_news
               [''https://example.com/a'', ''https://example.com/b'', ''https://example.com/c'',
                ''https://example.com/d'', ''https://example.com/e''])\<rparr>
        else Inr \<lparr>news_results = Some (map demo_news
               [''https://example.com/d'', ''https://example.com/e'', ''https://example.com/f'',
                ''https://example.com/g'', ''https://example.com/h''])\<rparr>),
      extract_api = (\<lambda>n u. Inl network_error),
      generate_api = (\<lambda>n p. Inl network_error),
      requests = []\<rparr>"

definition demo_state :: state where
  "demo_state = \<lparr>env = demo_env, trace = []\<rparr>"

definition demo_article :: "nat \<Rightarrow> string \<Rightarrow> NewsArticle" where
  "demo_article k l =
     \<lparr>id' = article_id (1700000000100 + 100 * int k) k,
      title = ascii ''News'',
      originalText = [],
      translatedText = [],
      summary = [],
      publishedAt = ascii ''2024-05-01T09:00:00Z'',
      source = ascii ''Web'',
      url = ascii l,
      imageUrl = None\<rparr>"

definition demo_articles :: "NewsArticle list" where
  "demo_articles =
     [demo_article 0 ''https://example.com/a'', demo_article 1 ''https://example.com/b'',
      demo_article 2 ''https://example.com/c'', demo_article 3 ''https://example.com/d'',
      demo_article 4 ''https://example.com/e'', demo_article 5 ''https://example.com/f'']"

text \<open>
  The first search fails with a network error, the second returns one result.
\<close>

definition flaky_env :: env where
  "flaky_env =
     \<lparr>clock = (\<lambda>k. 1700000000100 + 100 * int k), reads = 0, toISOString = table_toISOString,
      search_api = (\<lambda>n q.
        if n = 0 then Inl network_error
        else Inr \<lparr>news_results = Some [demo_news ''https://example.com/a'']\<rparr>),
      extract_api = (\<lambda>n u. Inl network_error),
      generate_api = (\<lambda>n p. Inl network_error),
      requests = []\<rparr>"

definition flaky_state :: state where
  "flaky_state = \<lparr>env = flaky_env, trace = []\<rparr>"




section \<open>Properties of retryWithBackoff\<close>

declare retry_loop.simps [simp del]
declare search_loop.simps [simp del]
declare process_loop.simps [simp del]
declare nat_digits.simps [simp del]

lemma invocations_append: "invocations (xs @ ys) = invocations xs @ invocations ys"
  by (induction xs rule: invocations.induct) auto

lemma delays_append: "delays (xs @ ys) = delays xs @ delays ys"
  by (induction xs rule: delays.induct) auto

lemma waitTime_trace: "waitTime e b i s = (w, s2) \<Longrightarrow> trace s2 = trace s"
  by (auto simp: waitTime_def split: option.splits prod.splits)

lemma waitTime_spec:
  "waitTime e b i s1 = (w, s2) \<Longrightarrow>
     js_max w (Num (b * 2 ^ i)) = wait_interval b i (reset e) (fst (Date_now (env s1)))"
  by (auto simp: waitTime_def wait_interval_def split: option.splits prod.splits reset_value.splits)

lemma waitTime_env:
  "waitTime e b i s1 = (w, s2) \<Longrightarrow>
     env s2 = (case reset e of Some t \<Rightarrow> snd (Date_now (env s1)) | None \<Rightarrow> env s1)"
  by (auto simp: waitTime_def split: option.splits prod.splits)

lemma wait_interval_ge:
  "r \<noteq> Some ResetUnparsable \<Longrightarrow> \<exists>d. wait_interval b i r now = Num d \<and> b * 2 ^ i \<le> d"
  by (auto simp: wait_interval_def split: option.splits reset_value.splits)

text \<open>One failed attempt that is retried: the loop goes on after exactly one delay.\<close>

lemma retry_loop_retry:
  assumes "fn (env s) = (Inl e, e1)" and "rate_limited e" and "int i < m - 1"
  shows "retry_loop fn m b i s =
     retry_loop fn m b (i + 1)
       \<lparr>env = (case reset e of Some t \<Rightarrow> snd (Date_now e1) | None \<Rightarrow> e1),
        trace = trace s @ [Invoked i (Some e), Delayed (wait_interval b i (reset e) (fst (Date_now e1)))]\<rparr>"
proof -
  define s1 where "s1 = \<lparr>env = e1, trace = trace s @ [Invoked i (Some e)]\<rparr>"
  obtain w s2 where w: "waitTime e b i s1 = (w, s2)" by (cases "waitTime e b i s1")
  have d: "js_max w (Num (b * 2 ^ i)) = wait_interval b i (reset e) (fst (Date_now e1))"
    using waitTime_spec [OF w] by (simp add: s1_def)
  have "delay (js_max w (Num (b * 2 ^ i))) s2 =
     \<lparr>env = (case reset e of Some t \<Rightarrow> snd (Date_now e1) | None \<Rightarrow> e1),
      trace = trace s @ [Invoked i (Some e), Delayed (wait_interval b i (reset e) (fst (Date_now e1)))]\<rparr>"
    using waitTime_trace [OF w] waitTime_env [OF w] d
    by (cases s2) (simp add: delay_def s1_def split: option.splits)
  moreover have "retry_loop fn m b i s = retry_loop fn m b (i + 1) (delay (js_max w (Num (b * 2 ^ i))) s2)"
    using assms w by (simp add: retry_loop.simps [of fn m b i s] rate_limited_def s1_def)
  ultimately show ?thesis by simp
qed

lemma retry_loop_run:
  "retry_loop fn m b i s = (r, s') \<Longrightarrow> \<exists>evs. trace s' = trace s @ evs \<and> run_ok m i r evs"
proof (induction fn m b i s arbitrary: r s' rule: retry_loop.induct)
  case (1 fn m b i s)
  show ?case
  proof (cases "int i < m")
    case False
    with "1.prems" have "r = Inr None" "s' = s" by (auto simp: retry_loop.simps)
    with False show ?thesis by (auto simp: run_ok_def)
  next
    case True
    obtain res e1 where f: "fn (env s) = (res, e1)" by (cases "fn (env s)")
    show ?thesis
    proof (cases res)
      case (Inr v)
      with True f "1.prems" have "r = Inr (Some v)" "trace s' = trace s @ [Invoked i None]"
        by (auto simp: retry_loop.simps)
      with True show ?thesis by (auto simp: run_ok_def)
    next
      case (Inl e)
      define s1 where "s1 = \<lparr>env = e1, trace = trace s @ [Invoked i (Some e)]\<rparr>"
      show ?thesis
      proof (cases "code e = Some ''RATE_LIMIT_EXCEEDED'' \<and> int i < m - 1")
        case False
        with True f Inl "1.prems" have "r = Inl e" "trace s' = trace s @ [Invoked i (Some e)]"
          by (auto simp: retry_loop.simps)
        with True False show ?thesis by (auto simp: run_ok_def rate_limited_def)
      next
        case rl: True
        obtain w s2 where w: "waitTime e b i s1 = (w, s2)" by (cases "waitTime e b i s1")
        let ?s3 = "delay (js_max w (Num (b * 2 ^ i))) s2"
        from True f Inl rl w "1.prems" have rec: "retry_loop fn m b (i + 1) ?s3 = (r, s')"
          by (simp add: retry_loop.simps [of fn m b i s] s1_def)
        from "1.IH" [OF True f [symmetric] Inl s1_def rl w [symmetric] refl rec]
        obtain evs where evs: "trace s' = trace ?s3 @ evs" "run_ok m (i + 1) r evs" by blast
        have t3: "trace ?s3 = trace s @ [Invoked i (Some e), Delayed (js_max w (Num (b * 2 ^ i)))]"
          using waitTime_trace [OF w] by (simp add: delay_def s1_def)
        have ne: "invocations evs \<noteq> []"
          using evs(2) rl by (auto simp: run_ok_def split: list.splits)
        let ?evs = "[Invoked i (Some e), Delayed (js_max w (Num (b * 2 ^ i)))] @ evs"
        have "trace s' = trace s @ ?evs" using evs(1) t3 by simp
        moreover have "run_ok m i r ?evs"
          using evs(2) ne rl
          by (auto simp: run_ok_def rate_limited_def upt_rec [of i] split: list.splits)
        ultimately show ?thesis by blast
      qed
    qed
  qed
qed

lemma retry_loop_delays:
  "retry_loop fn m b i s = (r, s') \<Longrightarrow>
     \<exists>evs. trace s' = trace s @ evs \<and>
       length (delays evs) = length (invocations evs) - 1 \<and>
       (\<forall>k < length (delays evs). \<exists>e now. invocations evs ! k = (i + k, Some e) \<and>
           delays evs ! k = wait_interval b (i + k) (reset e) now)"
proof (induction fn m b i s arbitrary: r s' rule: retry_loop.induct)
  case (1 fn m b i s)
  show ?case
  proof (cases "int i < m")
    case False
    with "1.prems" have "s' = s" by (auto simp: retry_loop.simps)
    then show ?thesis by auto
  next
    case True
    obtain res e1 where f: "fn (env s) = (res, e1)" by (cases "fn (env s)")
    show ?thesis
    proof (cases res)
      case (Inr v)
      with True f "1.prems" have "trace s' = trace s @ [Invoked i None]"
        by (auto simp: retry_loop.simps)
      then show ?thesis by auto
    next
      case (Inl e)
      define s1 where "s1 = \<lparr>env = e1, trace = trace s @ [Invoked i (Some e)]\<rparr>"
      show ?thesis
      proof (cases "code e = Some ''RATE_LIMIT_EXCEEDED'' \<and> int i < m - 1")
        case False
        with True f Inl "1.prems" have "trace s' = trace s @ [Invoked i (Some e)]"
          by (auto simp: retry_loop.simps)
        then show ?thesis by auto
      next
        case rl: True
        obtain w s2 where w: "waitTime e b i s1 = (w, s2)" by (cases "waitTime e b i s1")
        let ?d = "js_max w (Num (b * 2 ^ i))"
        let ?s3 = "delay ?d s2"
        from True f Inl rl w "1.prems" have rec: "retry_loop fn m b (i + 1) ?s3 = (r, s')"
          by (simp add: retry_loop.simps [of fn m b i s] s1_def)
        from "1.IH" [OF True f [symmetric] Inl s1_def rl w [symmetric] refl rec]
        obtain evs where evs: "trace s' = trace ?s3 @ evs"
          "length (delays evs) = length (invocations evs) - 1"
          "\<forall>k < length (delays evs). \<exists>e now. invocations evs ! k = (i + 1 + k, Some e) \<and>
             delays evs ! k = wait_interval b (i + 1 + k) (reset e) now" by blast
        from retry_loop_run [OF rec] obtain evs' where
          evs': "trace s' = trace ?s3 @ evs'" "run_ok m (i + 1) r evs'" by blast
        from evs(1) evs'(1) have "evs' = evs" by simp
        with evs'(2) rl have ne: "invocations evs \<noteq> []"
          by (auto simp: run_ok_def split: list.splits)
        have t3: "trace ?s3 = trace s @ [Invoked i (Some e), Delayed ?d]"
          using waitTime_trace [OF w] by (simp add: delay_def s1_def)
        have d: "?d = wait_interval b i (reset e) (fst (Date_now (env s1)))"
          by (rule waitTime_spec [OF w])
        let ?evs = "[Invoked i (Some e), Delayed ?d] @ evs"
        have a: "trace s' = trace s @ ?evs" using evs(1) t3 by simp
        have b: "length (delays ?evs) = length (invocations ?evs) - 1"
          using evs(2) ne by (cases "invocations evs") auto
        have c: "\<exists>e now. invocations ?evs ! k = (i + k, Some e) \<and>
           delays ?evs ! k = wait_interval b (i + k) (reset e) now" if "k < length (delays ?evs)" for k
        proof (cases k)
          case 0
          then show ?thesis using d by auto
        next
          case (Suc k')
          with that have "k' < length (delays evs)" by simp
          with evs(3) obtain e' now' where "invocations evs ! k' = (i + 1 + k', Some e')"
            "delays evs ! k' = wait_interval b (i + 1 + k') (reset e') now'" by blast
          with Suc show ?thesis by simp blast
        qed
        show ?thesis
        proof (intro exI [of _ ?evs] conjI allI impI)
          show "trace s' = trace s @ ?evs" by (rule a)
          show "length (delays ?evs) = length (invocations ?evs) - 1" by (rule b)
          show "\<exists>e now. invocations ?evs ! k = (i + k, Some e) \<and>
             delays ?evs ! k = wait_interval b (i + k) (reset e) now" if "k < length (delays ?evs)" for k
            using c [OF that] .
        qed
      qed
    qed
  qed
qed

text \<open>Evaluating the loop on the example environments.\<close>

lemmas weak_case_congs =
  prod.case_cong_weak sum.case_cong_weak option.case_cong_weak list.case_cong_weak

lemmas retry_eval =
  retryWithBackoff_def retry_loop.simps waitTime_def delay_def Date_now_def Let_def

lemma busy_run:
  "retryWithBackoff (blink_data_extractFromUrl busy_url) 3 1000 (busy_state None) =
     (Inl (rate_limit_error None), busy_exhausted)"
  by (simp add: retry_eval blink_data_extractFromUrl_def busy_env_def busy_state_def
      busy_exhausted_def rate_limit_error_def cong: weak_case_congs)

lemma busy_run_reset:
  "retryWithBackoff (blink_data_extractFromUrl busy_url) 3 1000 (busy_state (Some (ResetAt 1700000001600))) =
     (Inl (rate_limit_error (Some (ResetAt 1700000001600))), busy_exhausted_reset)"
  by (simp add: retry_eval blink_data_extractFromUrl_def busy_env_def busy_state_def
      busy_exhausted_reset_def rate_limit_error_def cong: weak_case_congs)

text \<open>
  C1. \<open>retryWithBackoff\<close> retries exactly when the caught error is rate-limit
  classified and attempts remain. In the events \<open>evs\<close> of a call: the attempts are
  numbered from 0 and there are at most \<open>maxRetries\<close> of them (so at most
  \<open>maxRetries - 1\<close> after the first); every attempt that was followed by another threw
  a rate-limit error while \<open>i < maxRetries - 1\<close>; and when the last attempt threw
  \<open>e\<close>, the call throws that same \<open>e\<close>, and \<open>e\<close> is either not a rate-limit error
  (it was not retried, whichever attempt it was) or the error of attempt
  \<open>maxRetries - 1\<close>.
\<close>

theorem retryWithBackoff_retries:
  assumes "retryWithBackoff fn maxRetries baseDelay s = (r, s')"
  shows "\<exists>evs. trace s' = trace s @ evs \<and>
     map fst (invocations evs) = [0..<length (invocations evs)] \<and>
     int (length (invocations evs)) \<le> max maxRetries 0 \<and>
     (\<forall>(j, out) \<in> set (butlast (invocations evs)).
         \<exists>e. out = Some e \<and> rate_limited e \<and> int j < maxRetries - 1) \<and>
     (invocations evs \<noteq> [] \<longrightarrow>
        (case last (invocations evs) of
           (j, Some e) \<Rightarrow> r = Inl e \<and> (\<not> rate_limited e \<or> int j = maxRetries - 1)
         | (j, None) \<Rightarrow> (\<exists>v. r = Inr (Some v))))"
proof -
  from assms retry_loop_run [of fn maxRetries baseDelay 0 s r s']
  obtain evs where evs: "trace s' = trace s @ evs" "run_ok maxRetries 0 r evs"
    by (auto simp: retryWithBackoff_def)
  let ?inv = "invocations evs"
  from evs(2) have idx: "map fst ?inv = [0..<length ?inv]" by (simp add: run_ok_def)
  from evs(2) have len: "int (length ?inv) \<le> max maxRetries 0"
    by (cases "?inv = []") (auto simp: run_ok_def)
  from evs(2) have mid: "\<forall>(j, out) \<in> set (butlast ?inv).
      \<exists>e. out = Some e \<and> rate_limited e \<and> int j < maxRetries - 1"
    by (simp add: run_ok_def)
  have fin: "case last ?inv of
           (j, Some e) \<Rightarrow> r = Inl e \<and> (\<not> rate_limited e \<or> int j = maxRetries - 1)
         | (j, None) \<Rightarrow> (\<exists>v. r = Inr (Some v))" if ne: "?inv \<noteq> []"
  proof -
    obtain j out where l: "last ?inv = (j, out)" by (cases "last ?inv")
    have "fst (last ?inv) = last (map fst ?inv)" using ne by (simp add: last_map)
    also have "\<dots> = length ?inv - 1" using ne idx by (simp add: last_upt)
    finally have j: "j = length ?inv - 1" using l by simp
    from evs(2) ne have "int (length ?inv) \<le> maxRetries" by (auto simp: run_ok_def)
    with j ne have jm: "int j \<le> maxRetries - 1" by (cases ?inv) auto
    from evs(2) ne have "case last ?inv of
           (j, Some e) \<Rightarrow> r = Inl e \<and> \<not> (rate_limited e \<and> int j < maxRetries - 1)
         | (j, None) \<Rightarrow> (\<exists>v. r = Inr (Some v))"
      by (cases ?inv) (simp_all add: run_ok_def)
    with jm l show ?thesis by (cases out) auto
  qed
  show ?thesis
    by (intro exI [of _ evs] conjI impI evs(1) idx len mid fin)
qed

theorem retryWithBackoff_retries_witness:
  "retryWithBackoff (blink_data_extractFromUrl busy_url) 3 1000 (busy_state None) =
     (Inl (rate_limit_error None), busy_exhausted) \<and>
   (\<exists>evs. trace busy_exhausted = trace (busy_state None) @ evs \<and>
     map fst (invocations evs) = [0..<length (invocations evs)] \<and>
     int (length (invocations evs)) \<le> max 3 0 \<and>
     (\<forall>(j, out) \<in> set (butlast (invocations evs)).
         \<exists>e. out = Some e \<and> rate_limited e \<and> int j < 3 - 1) \<and>
     (invocations evs \<noteq> [] \<longrightarrow>
        (case last (invocations evs) of
           (j, Some e) \<Rightarrow> (Inl (rate_limit_error None) :: js_error + js_string option) = Inl e \<and>
              (\<not> rate_limited e \<or> int j = 3 - 1)
         | (j, None) \<Rightarrow> (\<exists>v. (Inl (rate_limit_error None) :: js_error + js_string option) = Inr (Some v)))))"
  using retryWithBackoff_retries [OF busy_run] busy_run by (intro conjI)

lemma busy_run_unparsable:
  "retryWithBackoff (blink_data_extractFromUrl busy_url) 3 1000 (busy_state (Some ResetUnparsable)) =
     (Inl (rate_limit_error (Some ResetUnparsable)), busy_exhausted_unparsable)"
  by (simp add: retry_eval blink_data_extractFromUrl_def busy_env_def busy_state_def
      busy_exhausted_unparsable_def rate_limit_error_def cong: weak_case_congs)

text \<open>
  C2. Lines 24-29 take the maximum of the wait computed from the error and
  \<open>baseDelay * 2^i\<close>, which is the floor of the claim as long as the reset of the
  error denotes a date or is missing (\<open>retry_loop_retry\<close>, \<open>retry_loop_delays\<close>
  and \<open>wait_interval_ge\<close> above). A rate-limit error whose reset is truthy and
  denotes no date gives \<open>NaN\<close> for the difference and for the maximum: both
  retries of the run below await \<open>delay(NaN)\<close>, which does not wait, where the floor
  is 1000 ms and 2000 ms. The same run with a reset at 1700000001600 awaits 1500 ms and
  2000 ms.
\<close>

theorem unparsable_reset_defeats_floor:
  "retryWithBackoff (blink_data_extractFromUrl busy_url) 3 1000 (busy_state (Some ResetUnparsable)) =
     (Inl (rate_limit_error (Some ResetUnparsable)), busy_exhausted_unparsable) \<and>
   delays (trace busy_exhausted_unparsable) = [NaN, NaN] \<and>
   retryWithBackoff (blink_data_extractFromUrl busy_url) 3 1000
       (busy_state (Some (ResetAt 1700000001600))) =
     (Inl (rate_limit_error (Some (ResetAt 1700000001600))), busy_exhausted_reset) \<and>
   delays (trace busy_exhausted_reset) = [Num 1500, Num 2000]"
  by (simp add: busy_run_unparsable busy_run_reset busy_exhausted_unparsable_def
      busy_exhausted_reset_def)

text \<open>
  C10. With a maximum attempt count of 0 or less the loop body never runs: the call
  resolves with \<open>undefined\<close> and the state, environment and trace, is untouched, so
  the wrapped operation was not invoked.
\<close>

theorem retryWithBackoff_no_attempts:
  "maxRetries \<le> 0 \<Longrightarrow> retryWithBackoff fn maxRetries baseDelay s = (Inr None, s)"
  by (simp add: retryWithBackoff_def retry_loop.simps)

theorem retryWithBackoff_no_attempts_witness:
  "(0::int) \<le> 0 \<and>
   retryWithBackoff (blink_data_extractFromUrl busy_url) 0 1000 (busy_state None) =
     (Inr None, busy_state None)"
  using retryWithBackoff_no_attempts [of 0 "blink_data_extractFromUrl busy_url" 1000 "busy_state None"]
  by simp

section \<open>Deduplication\<close>

lemma findIndex_same_link:
  "\<exists>k. findIndex (same_link (Some r)) (map Some rs) = Inr k \<and>
     (if link r \<in> link ` set rs
      then 0 \<le> k \<and> nat k < length rs \<and> link (rs ! nat k) = link r \<and>
           (\<forall>j < nat k. link (rs ! j) \<noteq> link r)
      else k = - 1)"
proof (induction rs)
  case Nil
  then show ?case by simp
next
  case (Cons x xs)
  show ?case
  proof (cases "link x = link r")
    case True
    then show ?thesis by (simp add: same_link_def)
  next
    case False
    from Cons obtain k where k: "findIndex (same_link (Some r)) (map Some xs) = Inr k"
      "if link r \<in> link ` set xs
       then 0 \<le> k \<and> nat k < length xs \<and> link (xs ! nat k) = link r \<and>
            (\<forall>j < nat k. link (xs ! j) \<noteq> link r)
       else k = - 1" by blast
    show ?thesis
    proof (cases "link r \<in> link ` set xs")
      case True
      with k(2) have k2: "0 \<le> k" "nat k < length xs" "link (xs ! nat k) = link r"
        "\<forall>j < nat k. link (xs ! j) \<noteq> link r" by auto
      have "findIndex (same_link (Some r)) (map Some (x # xs)) = Inr (k + 1)"
        using False k(1) k2(1) by (simp add: same_link_def)
      moreover have "nat (k + 1) = Suc (nat k)" using k2(1) by simp
      moreover have "\<forall>j < Suc (nat k). link ((x # xs) ! j) \<noteq> link r"
        using False k2(4) by (auto simp: nth_Cons split: nat.splits)
      ultimately show ?thesis using True k2 by auto
    next
      case nin: False
      with k(2) have "k = - 1" by simp
      then have "findIndex (same_link (Some r)) (map Some (x # xs)) = Inr (- 1)"
        using False k(1) by (simp add: same_link_def)
      with nin False show ?thesis by auto
    qed
  qed
qed

lemma first_with_link_Some:
  assumes "i < length rs"
  shows "first_with_link (map Some rs) (Some (rs ! i)) i =
     Inr (\<forall>j < i. link (rs ! j) \<noteq> link (rs ! i))"
proof -
  from findIndex_same_link [of "rs ! i" rs] assms
  obtain k where k: "findIndex (same_link (Some (rs ! i))) (map Some rs) = Inr k"
    "0 \<le> k" "nat k < length rs" "link (rs ! nat k) = link (rs ! i)"
    "\<forall>j < nat k. link (rs ! j) \<noteq> link (rs ! i)"
    by (auto split: if_splits)
  have "(int i = k) = (\<forall>j < i. link (rs ! j) \<noteq> link (rs ! i))"
  proof
    assume "int i = k"
    then have "nat k = i" by simp
    with k(5) show "\<forall>j < i. link (rs ! j) \<noteq> link (rs ! i)" by simp
  next
    assume a: "\<forall>j < i. link (rs ! j) \<noteq> link (rs ! i)"
    from a k(4) have "\<not> nat k < i" by auto
    moreover from k(5) have "\<not> i < nat k" by auto
    ultimately have "nat k = i" by simp
    with k(2) show "int i = k" by simp
  qed
  with k(1) show ?thesis by (simp add: first_with_link_def)
qed

lemma filter_from_nths:
  "(\<And>m. m < length xs \<Longrightarrow> p (xs ! m) (k + m) = Inr (k + m \<in> A)) \<Longrightarrow>
     filter_from p k xs = Inr (nths xs {j. j + k \<in> A})"
proof (induction xs arbitrary: k)
  case Nil
  then show ?case by simp
next
  case (Cons x xs)
  have hd: "p x k = Inr (k \<in> A)" using Cons.prems [of 0] by simp
  have "\<And>m. m < length xs \<Longrightarrow> p (xs ! m) (k + 1 + m) = Inr (k + 1 + m \<in> A)"
    using Cons.prems [of "Suc m" for m] by simp
  from Cons.IH [OF this] have tl: "filter_from p (k + 1) xs = Inr (nths xs {j. j + (k + 1) \<in> A})" .
  show ?case using hd tl by (simp add: nths_Cons)
qed

lemma zip_upt_nth: "zip xs [0..<length xs] = map (\<lambda>i. (xs ! i, i)) [0..<length xs]"
  by (rule nth_equalityI) auto

lemma nths_index_list:
  "nths xs A = map (\<lambda>i. xs ! i) (filter (\<lambda>i. i \<in> A) [0..<length xs])"
  by (simp add: nths_def zip_upt_nth filter_map comp_def)

lemma uniqueResults_Some: "uniqueResults (map Some rs) = Inr (map Some (first_seen rs))"
proof -
  let ?A = "{i. \<forall>j < i. link (rs ! j) \<noteq> link (rs ! i)}"
  have "filter_from (first_with_link (map Some rs)) 0 (map Some rs) =
      Inr (nths (map Some rs) {j. j + 0 \<in> ?A})"
    by (rule filter_from_nths) (simp add: first_with_link_Some)
  then show ?thesis
    by (simp add: uniqueResults_def nths_map nths_index_list first_seen_def)
qed

lemma distinct_first_seen: "distinct (map link (first_seen rs))"
proof -
  let ?P = "\<lambda>i. \<forall>j < i. link (rs ! j) \<noteq> link (rs ! i)"
  have "inj_on (\<lambda>i. link (rs ! i)) (set (filter ?P [0..<length rs]))"
  proof (rule inj_onI)
    fix a b
    assume a: "a \<in> set (filter ?P [0..<length rs])" and b: "b \<in> set (filter ?P [0..<length rs])"
      and eq: "link (rs ! a) = link (rs ! b)"
    from a b eq have "\<not> a < b" "\<not> b < a" by auto
    then show "a = b" by simp
  qed
  then show ?thesis by (simp add: first_seen_def distinct_map comp_def)
qed

lemma set_first_seen: "set (map link (first_seen rs)) = set (map link rs)"
proof
  show "set (map link (first_seen rs)) \<subseteq> set (map link rs)"
    by (auto simp: first_seen_def)
next
  have "link (rs ! i) \<in> set (map link (first_seen rs))" if "i < length rs" for i
    using that
  proof (induction i rule: less_induct)
    case (less i)
    show ?case
    proof (cases "\<forall>j < i. link (rs ! j) \<noteq> link (rs ! i)")
      case True
      with less.prems
      have "i \<in> set (filter (\<lambda>i. \<forall>j < i. link (rs ! j) \<noteq> link (rs ! i)) [0..<length rs])"
        by simp
      then show ?thesis unfolding first_seen_def set_map by (intro imageI)
    next
      case False
      then obtain j where j: "j < i" "link (rs ! j) = link (rs ! i)" by auto
      with less.IH [of j] less.prems show ?thesis by simp
    qed
  qed
  then show "set (map link rs) \<subseteq> set (map link (first_seen rs))"
    by (auto simp: in_set_conv_nth)
qed

lemma subseq_first_seen: "subseq (first_seen rs) rs"
  unfolding first_seen_def subseq_conv_nths
  by (rule exI [of _ "{i. \<forall>j < i. link (rs ! j) \<noteq> link (rs ! i)}"]) (simp add: nths_index_list)

lemma find_first_seen:
  assumes "r \<in> set (first_seen rs)"
  shows "find (\<lambda>x. link x = link r) rs = Some r"
proof -
  from assms obtain i where i: "i < length rs" "r = rs ! i" "\<forall>j < i. link (rs ! j) \<noteq> link (rs ! i)"
    by (auto simp: first_seen_def)
  then show ?thesis unfolding find_Some_iff by (intro exI [of _ i]) simp
qed

lemma first_seen_dup_results:
  "first_seen dup_results =
     [demo_result ''https://example.com/a'' ''First'' None,
      demo_result ''https://example.com/b'' ''Second'' None]"
  by (simp add: first_seen_def dup_results_def demo_result_def ascii_def upt_rec [of 0]
      upt_rec [of 1] upt_rec [of 2] upt_rec [of "Suc 0"] upt_rec [of "Suc (Suc 0)"] numeral_3_eq_3
      numeral_2_eq_2 All_less_Suc)

text \<open>
  C3. On a merged list of search results, \<open>uniqueResults\<close> returns
  \<open>first_seen\<close>: the results at the positions where their link occurs for the first
  time. The survivors are a subsequence of the input (original relative order), no two
  survivors have the same link, every link of the input survives, and each survivor is the
  first result of the input that has its link (equality of the \<open>link\<close> strings).
\<close>

theorem uniqueResults_first_wins:
  "uniqueResults (map Some rs) = Inr (map Some (first_seen rs)) \<and>
   subseq (first_seen rs) rs \<and>
   distinct (map link (first_seen rs)) \<and>
   set (map link (first_seen rs)) = set (map link rs) \<and>
   (\<forall>r \<in> set (first_seen rs). find (\<lambda>x. link x = link r) rs = Some r)"
  using uniqueResults_Some subseq_first_seen distinct_first_seen set_first_seen find_first_seen
  by blast

theorem uniqueResults_first_wins_witness:
  "uniqueResults (map Some dup_results) =
     Inr [Some (demo_result ''https://example.com/a'' ''First'' None),
          Some (demo_result ''https://example.com/b'' ''Second'' None)] \<and>
   find (\<lambda>x. link x = link (demo_result ''https://example.com/a'' ''First'' None)) dup_results =
     Some (demo_result ''https://example.com/a'' ''First'' None) \<and>
   find (\<lambda>x. link x = link (demo_result ''https://example.com/b'' ''Second'' None)) dup_results =
     Some (demo_result ''https://example.com/b'' ''Second'' None) \<and>
   demo_result ''https://example.com/a'' ''Third'' None \<in> set dup_results \<and>
   demo_result ''https://example.com/a'' ''Third'' None \<noteq>
     demo_result ''https://example.com/a'' ''First'' None"
proof -
  have "demo_result ''https://example.com/a'' ''Third'' None \<in> set dup_results"
    "demo_result ''https://example.com/a'' ''Third'' None \<noteq>
       demo_result ''https://example.com/a'' ''First'' None"
    by (simp_all add: dup_results_def demo_result_def ascii_def)
  with uniqueResults_first_wins [of dup_results] show ?thesis
    by (simp add: first_seen_dup_results)
qed

section \<open>Requests made by the retry loop\<close>

lemma waitTime_requests: "waitTime e b i s = (w, s2) \<Longrightarrow> requests (env s2) = requests (env s)"
  by (auto simp: waitTime_def Date_now_def split: option.splits prod.splits)

text \<open>An operation that sends one request per call: the loop sends it once per attempt,
  and at least once when it is entered with attempts left.\<close>

lemma retry_loop_requests:
  "\<forall>e. requests (snd (fn e)) = requests e @ [rq] \<Longrightarrow>
   retry_loop fn m b i s = (r, s') \<Longrightarrow>
     \<exists>n. requests (env s') = requests (env s) @ replicate n rq \<and> (int i < m \<longrightarrow> 0 < n)"
proof (induction fn m b i s arbitrary: r s' rule: retry_loop.induct)
  case (1 fn m b i s)
  note fn = "1.prems"(1)
  show ?case
  proof (cases "int i < m")
    case False
    with "1.prems"(2) have "s' = s" by (auto simp: retry_loop.simps)
    with False show ?thesis by (intro exI [of _ 0]) simp
  next
    case True
    obtain res e1 where f: "fn (env s) = (res, e1)" by (cases "fn (env s)")
    from fn have "requests (snd (fn (env s))) = requests (env s) @ [rq]" by blast
    with f have e1: "requests e1 = requests (env s) @ [rq]" by simp
    show ?thesis
    proof (cases res)
      case (Inr v)
      with True f "1.prems"(2) have "env s' = e1" by (auto simp: retry_loop.simps)
      with e1 show ?thesis by (intro exI [of _ 1]) simp
    next
      case (Inl e)
      define s1 where "s1 = \<lparr>env = e1, trace = trace s @ [Invoked i (Some e)]\<rparr>"
      show ?thesis
      proof (cases "code e = Some ''RATE_LIMIT_EXCEEDED'' \<and> int i < m - 1")
        case False
        with True f Inl "1.prems"(2) have "env s' = e1" by (auto simp: retry_loop.simps)
        with e1 show ?thesis by (intro exI [of _ 1]) simp
      next
        case rl: True
        obtain w s2 where w: "waitTime e b i s1 = (w, s2)" by (cases "waitTime e b i s1")
        let ?s3 = "delay (js_max w (Num (b * 2 ^ i))) s2"
        from True f Inl rl w "1.prems"(2) have rec: "retry_loop fn m b (i + 1) ?s3 = (r, s')"
          by (simp add: retry_loop.simps [of fn m b i s] s1_def)
        from "1.IH" [OF True f [symmetric] Inl s1_def rl w [symmetric] refl fn rec]
        obtain n where n: "requests (env s') = requests (env ?s3) @ replicate n rq" by blast
        have "requests (env ?s3) = requests (env s) @ [rq]"
          using waitTime_requests [OF w] e1 by (simp add: delay_def s1_def)
        with n have "requests (env s') = requests (env s) @ replicate (Suc n) rq"
          by (simp add: replicate_app_Cons_same)
        then show ?thesis by (intro exI [of _ "Suc n"]) simp
      qed
    qed
  qed
qed

lemma extract_requests:
  "retryWithBackoff (blink_data_extractFromUrl u) 3 1000 s = (r, s') \<Longrightarrow>
     \<exists>n. requests (env s') = requests (env s) @ replicate (Suc n) (ExtractFromUrl u)"
proof -
  assume a: "retryWithBackoff (blink_data_extractFromUrl u) 3 1000 s = (r, s')"
  have "\<forall>e. requests (snd (blink_data_extractFromUrl u e)) = requests e @ [ExtractFromUrl u]"
    by (simp add: blink_data_extractFromUrl_def)
  from retry_loop_requests [of "blink_data_extractFromUrl u", OF this a [unfolded retryWithBackoff_def]]
  obtain n where "requests (env s') = requests (env s) @ replicate n (ExtractFromUrl u)" "0 < n"
    by auto
  then show ?thesis by (cases n) auto
qed

lemma generate_requests:
  "retryWithBackoff (blink_ai_generateText p k) 3 1000 s = (r, s') \<Longrightarrow>
     \<exists>n. requests (env s') = requests (env s) @ replicate (Suc n) (GenerateText p k)"
proof -
  assume a: "retryWithBackoff (blink_ai_generateText p k) 3 1000 s = (r, s')"
  have "\<forall>e. requests (snd (blink_ai_generateText p k e)) = requests e @ [GenerateText p k]"
    by (simp add: blink_ai_generateText_def)
  from retry_loop_requests [of "blink_ai_generateText p k", OF this a [unfolded retryWithBackoff_def]]
  obtain n where "requests (env s') = requests (env s) @ replicate n (GenerateText p k)" "0 < n"
    by auto
  then show ?thesis by (cases n) auto
qed

section \<open>Processing one result\<close>

lemma extractContent_requests:
  assumes "extractContent i result seed s = (body, s1)"
  shows "\<exists>n. requests (env s1) = requests (env s) @ replicate n (ExtractFromUrl (link result)) \<and>
     (0 < n \<longleftrightarrow> length seed < 200 \<and> i < 3)"
proof (cases "length seed < 200 \<and> i < 3")
  case False
  with assms have "s1 = s" by (auto simp: extractContent_def)
  with False show ?thesis by (intro exI [of _ 0]) simp
next
  case True
  obtain r s' where r: "retryWithBackoff (blink_data_extractFromUrl (link result)) 3 1000 s = (r, s')"
    by (cases "retryWithBackoff (blink_data_extractFromUrl (link result)) 3 1000 s")
  with True assms have "s1 = s'"
    by (auto simp: extractContent_def split: sum.splits option.splits if_splits)
  from extract_requests [OF r] obtain n where
    "requests (env s') = requests (env s) @ replicate (Suc n) (ExtractFromUrl (link result))" by blast
  with \<open>s1 = s'\<close> True show ?thesis by (intro exI [of _ "Suc n"]) simp
qed

lemma extractContent_body:
  assumes "extractContent i result seed s = (body, s1)"
  shows "body =
     (if length seed < 200 \<and> i < 3 then
        (case fst (retryWithBackoff (blink_data_extractFromUrl (link result)) 3 1000 s) of
           Inr (Some extracted) \<Rightarrow> if length extracted > 200 then take 2000 extracted else seed
         | Inr None \<Rightarrow> seed
         | Inl e \<Rightarrow> seed)
      else seed)"
  using assms by (auto simp: extractContent_def split: sum.splits option.splits if_splits prod.splits)

lemma translate_requests:
  assumes "translate body s = (tr, s2)"
  shows "\<exists>n. requests (env s2) =
       requests (env s) @ replicate n (GenerateText (prompt_prefix @ body @ prompt_suffix) 1000) \<and>
     (0 < n \<longleftrightarrow> length body > 50)"
proof (cases "length body > 50")
  case False
  with assms have "s2 = s" by (auto simp: translate_def)
  with False show ?thesis by (intro exI [of _ 0]) simp
next
  case True
  let ?f = "blink_ai_generateText (prompt_prefix @ body @ prompt_suffix) 1000"
  obtain r s' where r: "retryWithBackoff ?f 3 1000 (delay (Num 1500) s) = (r, s')"
    by (cases "retryWithBackoff ?f 3 1000 (delay (Num 1500) s)")
  with True assms have "s2 = s'"
    by (auto simp: translate_def split: sum.splits option.splits if_splits)
  from generate_requests [OF r] obtain n where
    "requests (env s') = requests (env (delay (Num 1500) s)) @
       replicate (Suc n) (GenerateText (prompt_prefix @ body @ prompt_suffix) 1000)" by blast
  with \<open>s2 = s'\<close> True show ?thesis by (intro exI [of _ "Suc n"]) (simp add: delay_def)
qed

lemma translate_text:
  assumes "translate body s = (tr, s2)"
  shows "tr =
     (if length body > 50 then
        (case fst (retryWithBackoff
                    (blink_ai_generateText (prompt_prefix @ body @ prompt_suffix) 1000) 3 1000
                    (delay (Num 1500) s)) of
           Inr (Some translation) \<Rightarrow> translation
         | Inr None \<Rightarrow> translation_failed
         | Inl e \<Rightarrow> translation_failed)
      else [])"
  using assms by (auto simp: translate_def split: sum.splits option.splits if_splits prod.splits)

lemma makeArticle_fields:
  assumes "makeArticle i result body tr e = (a, e')"
  shows "originalText a = body" "translatedText a = tr" "url a = link result"
    "NewsArticle.title a = SearchResult.title result" "id' a = article_id (fst (Date_now e)) i"
    "requests e' = requests e"
  using assms
  by (auto simp: makeArticle_def Date_now_def new_Date_toISOString_def Let_def
      split: prod.splits if_splits option.splits)

lemma processResult_unfold:
  "processResult i result s = (article, s') \<Longrightarrow>
     \<exists>body s1 tr s2 e3.
       extractContent i result (seedContent result) s = (body, s1) \<and>
       translate body s1 = (tr, s2) \<and>
       makeArticle i result body tr (env s2) = (article, e3) \<and>
       s' = s2\<lparr>env := e3\<rparr>"
  by (auto simp: processResult_def split: prod.splits)

lemma processResult_fields:
  assumes "processResult i result s = (article, s')"
  shows "url article = link result" "NewsArticle.title article = SearchResult.title result"
    "\<exists>t. id' article = article_id t i"
proof -
  from processResult_unfold [OF assms] obtain body s1 tr s2 e3 where
    "extractContent i result (seedContent result) s = (body, s1)" and
    "translate body s1 = (tr, s2)" and
    mk: "makeArticle i result body tr (env s2) = (article, e3)" by blast
  from makeArticle_fields [OF mk] show "url article = link result"
    "NewsArticle.title article = SearchResult.title result" "\<exists>t. id' article = article_id t i"
    by auto
qed

lemma length_translation_failed: "length translation_failed = 9"
  by (simp add: translation_failed_def)

lemmas process_eval =
  processResult_def extractContent_def translate_def makeArticle_def seedContent_def
  or_default_def js_or_def new_Date_toISOString_def
  retry_eval blink_data_extractFromUrl_def blink_ai_generateText_def
  demo_result_def network_error_def

lemma seedContent_cases:
  "seedContent result =
     (case snippet result of
        Some x \<Rightarrow> if x \<noteq> [] then x else (case description result of Some y \<Rightarrow> y | None \<Rightarrow> [])
      | None \<Rightarrow> (case description result of Some y \<Rightarrow> y | None \<Rightarrow> []))"
  by (simp add: seedContent_def or_default_def split: option.splits)

text \<open>What processing one result requests, and the body and translation it gives.\<close>

lemma processResult_extraction:
  assumes "processResult i result s = (article, s')"
  shows "\<exists>new. requests (env s') = requests (env s) @ new \<and>
     (ExtractFromUrl (link result) \<in> set new \<longleftrightarrow> length (seedContent result) < 200 \<and> i < 3) \<and>
     (\<forall>u. ExtractFromUrl u \<in> set new \<longrightarrow> u = link result) \<and>
     originalText article =
       (if length (seedContent result) < 200 \<and> i < 3 then
          (case fst (retryWithBackoff (blink_data_extractFromUrl (link result)) 3 1000 s) of
             Inr (Some extracted) \<Rightarrow>
               if length extracted > 200 then take 2000 extracted else seedContent result
           | Inr None \<Rightarrow> seedContent result
           | Inl e \<Rightarrow> seedContent result)
        else seedContent result)"
proof -
  from processResult_unfold [OF assms] obtain body s1 tr s2 e3 where
    ex: "extractContent i result (seedContent result) s = (body, s1)" and
    tr: "translate body s1 = (tr, s2)" and
    mk: "makeArticle i result body tr (env s2) = (article, e3)" and
    s': "s' = s2\<lparr>env := e3\<rparr>" by blast
  from extractContent_requests [OF ex] obtain n where
    n: "requests (env s1) = requests (env s) @ replicate n (ExtractFromUrl (link result))"
       "0 < n \<longleftrightarrow> length (seedContent result) < 200 \<and> i < 3" by blast
  from translate_requests [OF tr] obtain n' where
    n': "requests (env s2) =
       requests (env s1) @ replicate n' (GenerateText (prompt_prefix @ body @ prompt_suffix) 1000)"
    by blast
  let ?new = "replicate n (ExtractFromUrl (link result)) @
     replicate n' (GenerateText (prompt_prefix @ body @ prompt_suffix) 1000)"
  have a: "requests (env s') = requests (env s) @ ?new"
    using n(1) n' makeArticle_fields(6) [OF mk] s' by simp
  have b: "ExtractFromUrl (link result) \<in> set ?new \<longleftrightarrow> length (seedContent result) < 200 \<and> i < 3"
    using n(2) by auto
  have c: "\<forall>u. ExtractFromUrl u \<in> set ?new \<longrightarrow> u = link result" by auto
  have d: "originalText article =
       (if length (seedContent result) < 200 \<and> i < 3 then
          (case fst (retryWithBackoff (blink_data_extractFromUrl (link result)) 3 1000 s) of
             Inr (Some extracted) \<Rightarrow>
               if length extracted > 200 then take 2000 extracted else seedContent result
           | Inr None \<Rightarrow> seedContent result
           | Inl e \<Rightarrow> seedContent result)
        else seedContent result)"
    using extractContent_body [OF ex] makeArticle_fields(1) [OF mk] by simp
  show ?thesis by (intro exI [of _ ?new] conjI a b c d)
qed

lemma processResult_translation:
  assumes "processResult i result s = (article, s')"
  shows "\<exists>new. requests (env s') = requests (env s) @ new \<and>
     ((\<exists>p k. GenerateText p k \<in> set new) \<longleftrightarrow> length (originalText article) > 50) \<and>
     (\<forall>p k. GenerateText p k \<in> set new \<longrightarrow>
        p = prompt_prefix @ originalText article @ prompt_suffix \<and> k = 1000) \<and>
     (length (originalText article) \<le> 50 \<longrightarrow> translatedText article = []) \<and>
     (length (originalText article) > 50 \<longrightarrow>
        (case fst (retryWithBackoff
                    (blink_ai_generateText (prompt_prefix @ originalText article @ prompt_suffix) 1000)
                    3 1000 (delay (Num 1500) (snd (extractContent i result (seedContent result) s)))) of
           Inl e \<Rightarrow> translatedText article = translation_failed \<and>
                     translatedText article \<noteq> [] \<and> translatedText article \<noteq> originalText article
         | Inr None \<Rightarrow> translatedText article = translation_failed
         | Inr (Some translation) \<Rightarrow> translatedText article = translation))"
proof -
  from processResult_unfold [OF assms] obtain body s1 tr s2 e3 where
    ex: "extractContent i result (seedContent result) s = (body, s1)" and
    tr: "translate body s1 = (tr, s2)" and
    mk: "makeArticle i result body tr (env s2) = (article, e3)" and
    s': "s' = s2\<lparr>env := e3\<rparr>" by blast
  have body: "originalText article = body" and trt: "translatedText article = tr"
    using makeArticle_fields [OF mk] by simp_all
  from extractContent_requests [OF ex] obtain n where
    n: "requests (env s1) = requests (env s) @ replicate n (ExtractFromUrl (link result))" by blast
  from translate_requests [OF tr] obtain n' where
    n': "requests (env s2) =
       requests (env s1) @ replicate n' (GenerateText (prompt_prefix @ body @ prompt_suffix) 1000)"
      "0 < n' \<longleftrightarrow> length body > 50"
    by blast
  let ?new = "replicate n (ExtractFromUrl (link result)) @
     replicate n' (GenerateText (prompt_prefix @ body @ prompt_suffix) 1000)"
  have a: "requests (env s') = requests (env s) @ ?new"
    using n n'(1) makeArticle_fields(6) [OF mk] s' by simp
  have b: "(\<exists>p k. GenerateText p k \<in> set ?new) \<longleftrightarrow> length (originalText article) > 50"
    using n'(2) body by auto
  have b': "\<forall>p k. GenerateText p k \<in> set ?new \<longrightarrow>
        p = prompt_prefix @ originalText article @ prompt_suffix \<and> k = 1000"
    using body by auto
  have c: "length (originalText article) \<le> 50 \<longrightarrow> translatedText article = []"
    using translate_text [OF tr] body trt by simp
  have d: "length (originalText article) > 50 \<longrightarrow>
        (case fst (retryWithBackoff
                    (blink_ai_generateText (prompt_prefix @ originalText article @ prompt_suffix) 1000)
                    3 1000 (delay (Num 1500) (snd (extractContent i result (seedContent result) s)))) of
           Inl e \<Rightarrow> translatedText article = translation_failed \<and>
                     translatedText article \<noteq> [] \<and> translatedText article \<noteq> originalText article
         | Inr None \<Rightarrow> translatedText article = translation_failed
         | Inr (Some translation) \<Rightarrow> translatedText article = translation)"
  proof
    assume len: "length (originalText article) > 50"
    then have ne: "translation_failed \<noteq> []" "translation_failed \<noteq> originalText article"
      using length_translation_failed by auto
    show "case fst (retryWithBackoff
                    (blink_ai_generateText (prompt_prefix @ originalText article @ prompt_suffix) 1000)
                    3 1000 (delay (Num 1500) (snd (extractContent i result (seedContent result) s)))) of
           Inl e \<Rightarrow> translatedText article = translation_failed \<and>
                     translatedText article \<noteq> [] \<and> translatedText article \<noteq> originalText article
         | Inr None \<Rightarrow> translatedText article = translation_failed
         | Inr (Some translation) \<Rightarrow> translatedText article = translation"
      using translate_text [OF tr] body trt ex len ne
      by (auto split: sum.splits option.splits)
  qed
  show ?thesis by (intro exI [of _ ?new] conjI a b b' c d)
qed

section \<open>The sample articles\<close>


lemma sampleArticles_ids:
  "map id' (fst (sampleArticles e)) = [ascii ''sample-1'', ascii ''sample-2'', ascii ''sample-3'']"
  by (simp add: sampleArticles_def new_Date_toISOString_def Date_now_def)




lemma distinct_sample_ids:
  "distinct [ascii ''sample-1'', ascii ''sample-2'', ascii ''sample-3'']"
  by (simp add: ascii_def)

section \<open>Article identifiers\<close>

lemma nat_digits_not_Nil: "nat_digits n \<noteq> []"
  by (subst nat_digits.simps) simp

lemma last_nat_digits: "last (nat_digits n) = digit (n mod 10)"
  by (subst nat_digits.simps) simp

lemma last_article_id: "last (article_id t k) = digit (k mod 10)"
  by (simp add: article_id_def number_toString_def nat_digits_not_Nil last_nat_digits)

lemma digit_inject: "a < 10 \<Longrightarrow> b < 10 \<Longrightarrow> digit a = digit b \<Longrightarrow> a = b"
  by (simp add: digit_def word_of_nat_eq_iff take_bit_nat_eq_self)

lemma article_id_inject:
  assumes "article_id t k = article_id t' k'" and "k < 10" and "k' < 10"
  shows "k = k'"
proof -
  from assms(1) have "last (article_id t k) = last (article_id t' k')" by simp
  then have "digit k = digit k'" using assms(2,3) by (simp add: last_article_id)
  with assms(2,3) show ?thesis by (rule digit_inject)
qed

section \<open>The processing loop and the pipeline\<close>

lemma process_loop_articles:
  "process_loop uniq n i acc s = (Inr arts, s') \<Longrightarrow> n \<le> length uniq \<Longrightarrow>
     length arts = length acc + (n - i) \<and> take (length acc) arts = acc \<and>
     (\<forall>k. i \<le> k \<and> k < n \<longrightarrow> made_from k (uniq ! k) (arts ! (length acc + (k - i))))"
proof (induction uniq n i acc s arbitrary: arts s' rule: process_loop.induct)
  case (1 uniq n i acc s)
  show ?case
  proof (cases "i < n")
    case False
    with "1.prems" have "arts = acc" by (simp add: process_loop.simps)
    with False show ?thesis by auto
  next
    case True
    with "1.prems"(2) have il: "i < length uniq" by simp
    show ?thesis
    proof (cases "uniq ! i")
      case None
      with True il "1.prems"(1) show ?thesis by (simp add: process_loop.simps)
    next
      case (Some result)
      obtain article s1 where p: "processResult i result s = (article, s1)"
        by (cases "processResult i result s")
      define s2 where "s2 = (if int i < int n - 1 then delay (Num 2000) s1 else s1)"
      from True il Some p "1.prems"(1)
      have rec: "process_loop uniq n (i + 1) (acc @ [article]) s2 = (Inr arts, s')"
        by (simp add: process_loop.simps [of uniq n i acc s] s2_def)
      have sel: "(if i < length uniq then uniq ! i else None) = Some result" using il Some by simp
      from "1.IH" [OF True sel p [symmetric] refl s2_def rec "1.prems"(2)]
      have ih: "length arts = length (acc @ [article]) + (n - (i + 1))"
        "take (length (acc @ [article])) arts = acc @ [article]"
        "\<forall>k. i + 1 \<le> k \<and> k < n \<longrightarrow>
           made_from k (uniq ! k) (arts ! (length (acc @ [article]) + (k - (i + 1))))" by auto
      have len: "length arts = length acc + (n - i)" using ih(1) True by simp
      have tk: "take (length acc) arts = acc"
        using ih(2) by (metis append_eq_conv_conj take_take min.idem length_append take_all_iff
            append_take_drop_id nat_le_linear take_append)
      have ith: "arts ! length acc = article"
        using ih(2) by (metis nth_append_length nth_take length_append_singleton lessI)
      have mf: "made_from i (uniq ! i) article"
        using processResult_fields [OF p] Some by (auto simp: made_from_def)
      have "made_from k (uniq ! k) (arts ! (length acc + (k - i)))" if "i \<le> k" "k < n" for k
      proof (cases "k = i")
        case True
        with mf ith show ?thesis by simp
      next
        case False
        with that have "i + 1 \<le> k" by simp
        with ih(3) that have "made_from k (uniq ! k) (arts ! (length (acc @ [article]) + (k - (i + 1))))"
          by blast
        moreover have "length (acc @ [article]) + (k - (i + 1)) = length acc + (k - i)"
          using \<open>i + 1 \<le> k\<close> by simp
        ultimately show ?thesis by (simp only:)
      qed
      with len tk show ?thesis by blast
    qed
  qed
qed

text \<open>The two ways \<open>fetchNews\<close> ends: in the handler of line 173, or with the
  articles of the processing loop.\<close>

lemma fetchNews_cases:
  obtains (fallback) err e where
      "fst (fetchNews s) = \<lparr>articles = fst (sampleArticles e), caught = Some err\<rparr>"
      "env (snd (fetchNews s)) = snd (sampleArticles e)"
  | (processed) uniq arts s2 where
      "uniqueResults (fst (search_loop searchQueries 0 [] s)) = Inr uniq"
      "process_loop uniq (min 6 (length uniq)) 0 [] (snd (search_loop searchQueries 0 [] s)) =
         (Inr arts, s2)"
      "fst (fetchNews s) = \<lparr>articles = arts, caught = None\<rparr>"
proof -
  obtain allResults s1 where sl: "search_loop searchQueries 0 [] s = (allResults, s1)"
    by (cases "search_loop searchQueries 0 [] s")
  show ?thesis
  proof (cases "uniqueResults allResults")
    case (Inl err)
    with sl have "fst (fetchNews s) = \<lparr>articles = fst (sampleArticles (env s1)), caught = Some err\<rparr>"
      "env (snd (fetchNews s)) = snd (sampleArticles (env s1))"
      by (simp_all add: fetchNews_def showSamples_def split: prod.splits)
    then show ?thesis by (rule fallback)
  next
    case (Inr uniq)
    obtain res s2 where pl: "process_loop uniq (min 6 (length uniq)) 0 [] s1 = (res, s2)"
      by (cases "process_loop uniq (min 6 (length uniq)) 0 [] s1")
    show ?thesis
    proof (cases res)
      case (Inl err)
      with sl Inr pl have "fst (fetchNews s) = \<lparr>articles = fst (sampleArticles (env s2)), caught = Some err\<rparr>"
        "env (snd (fetchNews s)) = snd (sampleArticles (env s2))"
        by (simp_all add: fetchNews_def showSamples_def Let_def split: prod.splits)
      then show ?thesis by (rule fallback)
    next
      case (Inr arts)
      with sl \<open>uniqueResults allResults = Inr uniq\<close> pl
      have "uniqueResults (fst (search_loop searchQueries 0 [] s)) = Inr uniq"
        "process_loop uniq (min 6 (length uniq)) 0 [] (snd (search_loop searchQueries 0 [] s)) =
           (Inr arts, s2)"
        "fst (fetchNews s) = \<lparr>articles = arts, caught = None\<rparr>"
        by (simp_all add: fetchNews_def Let_def)
      then show ?thesis by (rule processed)
    qed
  qed
qed

text \<open>
  The states of the loop: \<open>st k\<close> is the state in which the result at position
  \<open>k\<close> is processed.
\<close>

lemma process_loop_steps:
  "process_loop uniq n i acc s = (Inr arts, s') \<Longrightarrow> n \<le> length uniq \<Longrightarrow>
     \<exists>st. st i = s \<and> st n = s' \<and>
       (\<forall>k. i \<le> k \<and> k < n \<longrightarrow>
          (\<exists>result. uniq ! k = Some result \<and>
             fst (processResult k result (st k)) = arts ! (length acc + (k - i)) \<and>
             st (Suc k) =
               (if int k < int n - 1 then delay (Num 2000) (snd (processResult k result (st k)))
                else snd (processResult k result (st k)))))"
proof (induction uniq n i acc s arbitrary: arts s' rule: process_loop.induct)
  case (1 uniq n i acc s)
  show ?case
  proof (cases "i < n")
    case False
    with "1.prems" have "s' = s" by (simp add: process_loop.simps)
    with False show ?thesis by (intro exI [of _ "\<lambda>_. s"]) auto
  next
    case True
    with "1.prems"(2) have il: "i < length uniq" by simp
    show ?thesis
    proof (cases "uniq ! i")
      case None
      with True il "1.prems"(1) show ?thesis by (simp add: process_loop.simps)
    next
      case (Some result)
      obtain article s1 where p: "processResult i result s = (article, s1)"
        by (cases "processResult i result s")
      define s2 where "s2 = (if int i < int n - 1 then delay (Num 2000) s1 else s1)"
      from True il Some p "1.prems"(1)
      have rec: "process_loop uniq n (i + 1) (acc @ [article]) s2 = (Inr arts, s')"
        by (simp add: process_loop.simps [of uniq n i acc s] s2_def)
      have sel: "(if i < length uniq then uniq ! i else None) = Some result" using il Some by simp
      from "1.IH" [OF True sel p [symmetric] refl s2_def rec "1.prems"(2)]
      obtain st where st: "st (i + 1) = s2" "st n = s'"
        "\<forall>k. i + 1 \<le> k \<and> k < n \<longrightarrow>
          (\<exists>result. uniq ! k = Some result \<and>
             fst (processResult k result (st k)) = arts ! (length (acc @ [article]) + (k - (i + 1))) \<and>
             st (Suc k) =
               (if int k < int n - 1 then delay (Num 2000) (snd (processResult k result (st k)))
                else snd (processResult k result (st k))))" by blast
      from process_loop_articles [OF rec "1.prems"(2)]
      have "take (length (acc @ [article])) arts = acc @ [article]" by simp
      then have ith: "arts ! length acc = article"
        by (metis nth_append_length nth_take length_append_singleton lessI)
      define st' where "st' = st(i := s)"
      have a: "st' i = s" by (simp add: st'_def)
      have b: "st' n = s'" using st(2) True by (simp add: st'_def)
      have c: "\<exists>result. uniq ! k = Some result \<and>
             fst (processResult k result (st' k)) = arts ! (length acc + (k - i)) \<and>
             st' (Suc k) =
               (if int k < int n - 1 then delay (Num 2000) (snd (processResult k result (st' k)))
                else snd (processResult k result (st' k)))" if "i \<le> k" "k < n" for k
      proof (cases "k = i")
        case True
        have "st' (Suc i) = s2" using st(1) by (simp add: st'_def)
        with True Some p ith a show ?thesis by (simp add: s2_def)
      next
        case False
        with that have k: "i + 1 \<le> k" by simp
        with st(3) that obtain r where r: "uniq ! k = Some r"
          "fst (processResult k r (st k)) = arts ! (length (acc @ [article]) + (k - (i + 1)))"
          "st (Suc k) =
               (if int k < int n - 1 then delay (Num 2000) (snd (processResult k r (st k)))
                else snd (processResult k r (st k)))" by blast
        have idx: "length (acc @ [article]) + (k - (i + 1)) = length acc + (k - i)" using k by simp
        have eq: "st' k = st k" "st' (Suc k) = st (Suc k)" using k by (simp_all add: st'_def)
        from r(2) have r2: "fst (processResult k r (st k)) = arts ! (length acc + (k - i))"
          unfolding idx .
        show ?thesis unfolding eq by (intro exI [of _ r] conjI r(1) r2 r(3))
      qed
      show ?thesis
        by (intro exI [of _ st'] conjI allI impI a b) (use c in blast)
    qed
  qed
qed

lemma fetchNews_processed:
  assumes "caught (fst (fetchNews s)) = None"
  shows "\<exists>uniq arts. uniqueResults (fst (search_loop searchQueries 0 [] s)) = Inr uniq \<and>
     process_loop uniq (min 6 (length uniq)) 0 [] (snd (search_loop searchQueries 0 [] s)) =
       (Inr arts, snd (fetchNews s)) \<and>
     articles (fst (fetchNews s)) = arts"
proof -
  obtain allResults s1 where sl: "search_loop searchQueries 0 [] s = (allResults, s1)"
    by (cases "search_loop searchQueries 0 [] s")
  show ?thesis
  proof (cases "uniqueResults allResults")
    case (Inl err)
    with sl assms show ?thesis
      by (simp add: fetchNews_def showSamples_def split: prod.splits)
  next
    case (Inr uniq)
    obtain res s2 where pl: "process_loop uniq (min 6 (length uniq)) 0 [] s1 = (res, s2)"
      by (cases "process_loop uniq (min 6 (length uniq)) 0 [] s1")
    show ?thesis
    proof (cases res)
      case (Inl err)
      with sl Inr pl assms show ?thesis
        by (simp add: fetchNews_def showSamples_def Let_def split: prod.splits)
    next
      case arts: (Inr arts)
      with sl Inr pl have "fetchNews s = (\<lparr>articles = arts, caught = None\<rparr>, s2)"
        by (simp add: fetchNews_def Let_def)
      with sl Inr pl arts show ?thesis by simp
    qed
  qed
qed

text \<open>The run of the loop, result by result.\<close>

lemma fetchNews_steps:
  assumes "caught (fst (fetchNews s)) = None"
  shows "\<exists>uniqueRs st.
     uniqueResults (fst (search_loop searchQueries 0 [] s)) = Inr uniqueRs \<and>
     length (articles (fst (fetchNews s))) = min 6 (length uniqueRs) \<and>
     st 0 = snd (search_loop searchQueries 0 [] s) \<and>
     st (length (articles (fst (fetchNews s)))) = snd (fetchNews s) \<and>
     (\<forall>k < length (articles (fst (fetchNews s))). \<exists>result.
        uniqueRs ! k = Some result \<and>
        fst (processResult k result (st k)) = articles (fst (fetchNews s)) ! k \<and>
        st (Suc k) =
          (if int k < int (length (articles (fst (fetchNews s)))) - 1
           then delay (Num 2000) (snd (processResult k result (st k)))
           else snd (processResult k result (st k))))"
proof -
  from fetchNews_processed [OF assms] obtain uniq arts where
    u: "uniqueResults (fst (search_loop searchQueries 0 [] s)) = Inr uniq" and
    pl: "process_loop uniq (min 6 (length uniq)) 0 [] (snd (search_loop searchQueries 0 [] s)) =
       (Inr arts, snd (fetchNews s))" and
    a: "articles (fst (fetchNews s)) = arts" by blast
  from process_loop_articles [OF pl] have len: "length arts = min 6 (length uniq)" by simp
  from process_loop_steps [OF pl] obtain st where
    st: "st 0 = snd (search_loop searchQueries 0 [] s)" "st (min 6 (length uniq)) = snd (fetchNews s)"
      "\<forall>k. 0 \<le> k \<and> k < min 6 (length uniq) \<longrightarrow>
          (\<exists>result. uniq ! k = Some result \<and>
             fst (processResult k result (st k)) = arts ! (length ([]::NewsArticle list) + (k - 0)) \<and>
             st (Suc k) =
               (if int k < int (min 6 (length uniq)) - 1
                then delay (Num 2000) (snd (processResult k result (st k)))
                else snd (processResult k result (st k))))" by auto
  have step: "\<exists>result. uniq ! k = Some result \<and>
        fst (processResult k result (st k)) = arts ! k \<and>
        st (Suc k) =
          (if int k < int (length arts) - 1
           then delay (Num 2000) (snd (processResult k result (st k)))
           else snd (processResult k result (st k)))" if "k < length arts" for k
    using st(3) that len by simp
  show ?thesis unfolding a
    by (intro exI [of _ uniq] exI [of _ st] conjI allI impI u len st(1) step) (simp_all add: len st(2))
qed

text \<open>Evaluating the pipeline on the example environments.\<close>

lemmas fetch_eval =
  fetchNews_def showSamples_def search_loop.simps process_loop.simps process_eval
  uniqueResults_def first_with_link_def same_link_def blink_data_search_def
  searchQueries_def searchQuery1_def searchQuery2_def ascii_def

lemma demo_fetch: "fst (fetchNews demo_state) = \<lparr>articles = demo_articles, caught = None\<rparr>"
  by (simp add: fetch_eval demo_state_def demo_env_def demo_news_def demo_articles_def demo_article_def
      cong: weak_case_congs) (simp add: eval_nat_numeral)


lemma flaky_search:
  "search_loop searchQueries 0 [] flaky_state =
     ([demo_news ''https://example.com/a''],
      \<lparr>env = flaky_env\<lparr>requests := [Search searchQuery1 8, Search searchQuery2 8]\<rparr>,
       trace = [Invoked 0 (Some network_error), Invoked 0 None]\<rparr>)"
  by (simp add: search_loop.simps retry_eval blink_data_search_def flaky_state_def flaky_env_def
      network_error_def searchQueries_def cong: weak_case_congs)

lemma demo_search_trace:
  "trace (snd (search_loop searchQueries 0 [] demo_state)) =
     [Invoked 0 None, Delayed (Num 2000), Invoked 0 None]"
  by (simp add: search_loop.simps retry_eval blink_data_search_def demo_state_def demo_env_def
      network_error_def searchQueries_def cong: weak_case_congs)


lemma story_fetch:
  "caught (fst (fetchNews story_state)) = None \<and>
   map url (articles (fst (fetchNews story_state))) =
     [ascii ''https://example.com/a'', ascii ''https://example.com/b'',
      ascii ''https://example.com/c'', ascii ''https://example.com/d''] \<and>
   map originalText (articles (fst (fetchNews story_state))) =
     [replicate 250 0x0078, replicate 2000 0x0079, [], ascii ''Short snippet''] \<and>
   map translatedText (articles (fst (fetchNews story_state))) =
     [ascii ''Translated'',
      [0x7FFB, 0x8A33, 0x306B, 0x5931, 0x6557, 0x3057, 0x307E, 0x3057, 0x305F], [], []] \<and>
   requests (env (snd (fetchNews story_state))) =
     [Search searchQuery1 8, Search searchQuery2 8,
      GenerateText (prompt_prefix @ replicate 250 0x0078 @ prompt_suffix) 1000,
      ExtractFromUrl (ascii ''https://example.com/b''),
      GenerateText (prompt_prefix @ replicate 2000 0x0079 @ prompt_suffix) 1000,
      ExtractFromUrl (ascii ''https://example.com/c'')]"
  by (simp add: fetch_eval story_state_def story_env_def story_result_def translation_failed_def
      cong: weak_case_congs)



text \<open>
  C9. The identifiers of the articles of one batch are pairwise distinct. In a processed
  batch the identifier of the \<open>k\<close>-th article is \<open>article_id t k\<close> for a clock
  reading \<open>t\<close>: it is built from the time and the position, not from the link on which
  the raw results were deduplicated.
\<close>

theorem fetchNews_distinct_ids:
  "distinct (map id' (articles (fst (fetchNews s)))) \<and>
   (caught (fst (fetchNews s)) = None \<longrightarrow>
      (\<forall>k < length (articles (fst (fetchNews s))).
         \<exists>t. id' (articles (fst (fetchNews s)) ! k) = article_id t k))"
proof (cases s rule: fetchNews_cases)
  case (fallback err e)
  then show ?thesis by (simp add: sampleArticles_ids ascii_def)
next
  case (processed uniq arts s2)
  from process_loop_articles [OF processed(2)]
  have len: "length arts = min 6 (length uniq)"
    and mf: "\<forall>k. k < min 6 (length uniq) \<longrightarrow> made_from k (uniq ! k) (arts ! k)" by simp_all
  have ids: "\<exists>t. id' (arts ! k) = article_id t k" if "k < length arts" for k
    using mf len that by (auto simp: made_from_def)
  have "distinct (map id' arts)"
  proof (subst distinct_conv_nth, intro allI impI)
    fix i j
    assume i: "i < length (map id' arts)" and j: "j < length (map id' arts)" and ne: "i \<noteq> j"
    from i j len have i6: "i < 10" "j < 10" by simp_all
    from i have "\<exists>t. id' (arts ! i) = article_id t i" by (intro ids) simp
    then obtain t where t: "id' (arts ! i) = article_id t i" ..
    from j have "\<exists>t. id' (arts ! j) = article_id t j" by (intro ids) simp
    then obtain t' where t': "id' (arts ! j) = article_id t' j" ..
    note t t' 
    with i j ne i6 show "map id' arts ! i \<noteq> map id' arts ! j"
      by (auto dest: article_id_inject)
  qed
  with ids processed(3) show ?thesis by simp
qed

theorem fetchNews_distinct_ids_witness:
  "caught (fst (fetchNews demo_state)) = None \<and>
   map id' (articles (fst (fetchNews demo_state))) =
     [article_id 1700000000100 0, article_id 1700000000200 1, article_id 1700000000300 2,
      article_id 1700000000400 3, article_id 1700000000500 4, article_id 1700000000600 5] \<and>
   distinct (map id' (articles (fst (fetchNews demo_state)))) \<and>
   (\<exists>t. id' (articles (fst (fetchNews demo_state)) ! 5) = article_id t 5)"
proof -
  have c: "caught (fst (fetchNews demo_state)) = None" by (simp add: demo_fetch)
  have i: "map id' (articles (fst (fetchNews demo_state))) =
     [article_id 1700000000100 0, article_id 1700000000200 1, article_id 1700000000300 2,
      article_id 1700000000400 3, article_id 1700000000500 4, article_id 1700000000600 5]"
    by (simp add: demo_fetch demo_articles_def demo_article_def)
  have l: "5 < length (articles (fst (fetchNews demo_state)))"
    by (simp add: demo_fetch demo_articles_def)
  from fetchNews_distinct_ids [of demo_state] c
  have d: "distinct (map id' (articles (fst (fetchNews demo_state))))"
    and "\<forall>k < length (articles (fst (fetchNews demo_state))).
      \<exists>t. id' (articles (fst (fetchNews demo_state)) ! k) = article_id t k"
    by blast+
  with l have "\<exists>t. id' (articles (fst (fetchNews demo_state)) ! 5) = article_id t 5" by blast
  with c i d show ?thesis by (intro conjI)
qed

section \<open>Enrichment and translation of the surviving results\<close>

text \<open>
  C5. In a run that ends with the processed batch, let \<open>st k\<close> be the state in which
  the result at position \<open>k\<close> of the capped list is processed, and let the seed of the
  body be the snippet of the result when it is a non-empty string, otherwise its
  description, otherwise the empty string. While that result is processed a content
  extraction request is sent, for its link and no other, exactly when the seed is shorter
  than 200 code units and \<open>k < 3\<close>. The body of the \<open>k\<close>-th article is then the
  first 2000 code units of the extracted content when the extraction resolves with more
  than 200 code units, and the seed when it resolves with less, resolves with nothing or
  throws; without extraction it is the seed. Every result of the capped list gives an
  article, whatever the extraction did.
\<close>

theorem fetchNews_extraction:
  assumes "caught (fst (fetchNews s)) = None"
  shows "\<exists>uniqueRs st.
     uniqueResults (fst (search_loop searchQueries 0 [] s)) = Inr uniqueRs \<and>
     length (articles (fst (fetchNews s))) = min 6 (length uniqueRs) \<and>
     st 0 = snd (search_loop searchQueries 0 [] s) \<and>
     st (length (articles (fst (fetchNews s)))) = snd (fetchNews s) \<and>
     (\<forall>k < length (articles (fst (fetchNews s))). \<exists>result new seed.
        uniqueRs ! k = Some result \<and>
        fst (processResult k result (st k)) = articles (fst (fetchNews s)) ! k \<and>
        st (Suc k) =
          (if int k < int (length (articles (fst (fetchNews s)))) - 1
           then delay (Num 2000) (snd (processResult k result (st k)))
           else snd (processResult k result (st k))) \<and>
        requests (env (st (Suc k))) = requests (env (st k)) @ new \<and>
        seed =
          (case snippet result of
             Some x \<Rightarrow> if x \<noteq> [] then x else (case description result of Some y \<Rightarrow> y | None \<Rightarrow> [])
           | None \<Rightarrow> (case description result of Some y \<Rightarrow> y | None \<Rightarrow> [])) \<and>
        (ExtractFromUrl (link result) \<in> set new \<longleftrightarrow> length seed < 200 \<and> k < 3) \<and>
        (\<forall>u. ExtractFromUrl u \<in> set new \<longrightarrow> u = link result) \<and>
        originalText (articles (fst (fetchNews s)) ! k) =
          (if length seed < 200 \<and> k < 3 then
             (case fst (retryWithBackoff (blink_data_extractFromUrl (link result)) 3 1000 (st k)) of
                Inr (Some extracted) \<Rightarrow> if length extracted > 200 then take 2000 extracted else seed
              | Inr None \<Rightarrow> seed
              | Inl e \<Rightarrow> seed)
           else seed))"
proof -
  let ?arts = "articles (fst (fetchNews s))"
  from fetchNews_steps [OF assms] obtain uniqueRs st where
    u: "uniqueResults (fst (search_loop searchQueries 0 [] s)) = Inr uniqueRs" and
    len: "length ?arts = min 6 (length uniqueRs)" and
    st0: "st 0 = snd (search_loop searchQueries 0 [] s)" and
    stn: "st (length ?arts) = snd (fetchNews s)" and
    step: "\<forall>k < length ?arts. \<exists>result.
        uniqueRs ! k = Some result \<and>
        fst (processResult k result (st k)) = ?arts ! k \<and>
        st (Suc k) =
          (if int k < int (length ?arts) - 1
           then delay (Num 2000) (snd (processResult k result (st k)))
           else snd (processResult k result (st k)))" by blast
  have each: "\<exists>result new seed.
        uniqueRs ! k = Some result \<and>
        fst (processResult k result (st k)) = ?arts ! k \<and>
        st (Suc k) =
          (if int k < int (length ?arts) - 1
           then delay (Num 2000) (snd (processResult k result (st k)))
           else snd (processResult k result (st k))) \<and>
        requests (env (st (Suc k))) = requests (env (st k)) @ new \<and>
        seed =
          (case snippet result of
             Some x \<Rightarrow> if x \<noteq> [] then x else (case description result of Some y \<Rightarrow> y | None \<Rightarrow> [])
           | None \<Rightarrow> (case description result of Some y \<Rightarrow> y | None \<Rightarrow> [])) \<and>
        (ExtractFromUrl (link result) \<in> set new \<longleftrightarrow> length seed < 200 \<and> k < 3) \<and>
        (\<forall>u. ExtractFromUrl u \<in> set new \<longrightarrow> u = link result) \<and>
        originalText (?arts ! k) =
          (if length seed < 200 \<and> k < 3 then
             (case fst (retryWithBackoff (blink_data_extractFromUrl (link result)) 3 1000 (st k)) of
                Inr (Some extracted) \<Rightarrow> if length extracted > 200 then take 2000 extracted else seed
              | Inr None \<Rightarrow> seed
              | Inl e \<Rightarrow> seed)
           else seed)" if k: "k < length ?arts" for k
  proof -
    from step k obtain result where r: "uniqueRs ! k = Some result"
      "fst (processResult k result (st k)) = ?arts ! k"
      "st (Suc k) =
          (if int k < int (length ?arts) - 1
           then delay (Num 2000) (snd (processResult k result (st k)))
           else snd (processResult k result (st k)))" by blast
    obtain s' where p: "processResult k result (st k) = (?arts ! k, s')"
      using r(2) by (cases "processResult k result (st k)") simp
    from processResult_extraction [OF p] obtain new where
      new: "requests (env s') = requests (env (st k)) @ new"
        "ExtractFromUrl (link result) \<in> set new \<longleftrightarrow> length (seedContent result) < 200 \<and> k < 3"
        "\<forall>u. ExtractFromUrl u \<in> set new \<longrightarrow> u = link result"
        "originalText (?arts ! k) =
          (if length (seedContent result) < 200 \<and> k < 3 then
             (case fst (retryWithBackoff (blink_data_extractFromUrl (link result)) 3 1000 (st k)) of
                Inr (Some extracted) \<Rightarrow>
                  if length extracted > 200 then take 2000 extracted else seedContent result
              | Inr None \<Rightarrow> seedContent result
              | Inl e \<Rightarrow> seedContent result)
           else seedContent result)" by blast
    have rq: "requests (env (st (Suc k))) = requests (env (st k)) @ new"
      using r(3) p new(1) by (simp add: delay_def)
    show ?thesis
      by (intro exI [of _ result] exI [of _ new] exI [of _ "seedContent result"] conjI
          r rq seedContent_cases new)
  qed
  show ?thesis
    by (intro exI [of _ uniqueRs] exI [of _ st] conjI allI impI u len st0 stn each)
qed

theorem fetchNews_extraction_witness:
  "caught (fst (fetchNews story_state)) = None \<and>
   map url (articles (fst (fetchNews story_state))) =
     [ascii ''https://example.com/a'', ascii ''https://example.com/b'',
      ascii ''https://example.com/c'', ascii ''https://example.com/d''] \<and>
   map originalText (articles (fst (fetchNews story_state))) =
     [replicate 250 0x0078, replicate 2000 0x0079, [], ascii ''Short snippet''] \<and>
   requests (env (snd (fetchNews story_state))) =
     [Search searchQuery1 8, Search searchQuery2 8,
      GenerateText (prompt_prefix @ replicate 250 0x0078 @ prompt_suffix) 1000,
      ExtractFromUrl (ascii ''https://example.com/b''),
      GenerateText (prompt_prefix @ replicate 2000 0x0079 @ prompt_suffix) 1000,
      ExtractFromUrl (ascii ''https://example.com/c'')] \<and>
   (\<exists>uniqueRs st.
     uniqueResults (fst (search_loop searchQueries 0 [] story_state)) = Inr uniqueRs \<and>
     length (articles (fst (fetchNews story_state))) = min 6 (length uniqueRs) \<and>
     st 0 = snd (search_loop searchQueries 0 [] story_state) \<and>
     st (length (articles (fst (fetchNews story_state)))) = snd (fetchNews story_state) \<and>
     (\<forall>k < length (articles (fst (fetchNews story_state))). \<exists>result new seed.
        uniqueRs ! k = Some result \<and>
        fst (processResult k result (st k)) = articles (fst (fetchNews story_state)) ! k \<and>
        st (Suc k) =
          (if int k < int (length (articles (fst (fetchNews story_state)))) - 1
           then delay (Num 2000) (snd (processResult k result (st k)))
           else snd (processResult k result (st k))) \<and>
        requests (env (st (Suc k))) = requests (env (st k)) @ new \<and>
        seed =
          (case snippet result of
             Some x \<Rightarrow> if x \<noteq> [] then x else (case description result of Some y \<Rightarrow> y | None \<Rightarrow> [])
           | None \<Rightarrow> (case description result of Some y \<Rightarrow> y | None \<Rightarrow> [])) \<and>
        (ExtractFromUrl (link result) \<in> set new \<longleftrightarrow> length seed < 200 \<and> k < 3) \<and>
        (\<forall>u. ExtractFromUrl u \<in> set new \<longrightarrow> u = link result) \<and>
        originalText (articles (fst (fetchNews story_state)) ! k) =
          (if length seed < 200 \<and> k < 3 then
             (case fst (retryWithBackoff (blink_data_extractFromUrl (link result)) 3 1000 (st k)) of
                Inr (Some extracted) \<Rightarrow> if length extracted > 200 then take 2000 extracted else seed
              | Inr None \<Rightarrow> seed
              | Inl e \<Rightarrow> seed)
           else seed)))"
proof -
  from story_fetch have c: "caught (fst (fetchNews story_state)) = None" by blast
  from fetchNews_extraction [OF c] have "\<exists>uniqueRs st.
     uniqueResults (fst (search_loop searchQueries 0 [] story_state)) = Inr uniqueRs \<and>
     length (articles (fst (fetchNews story_state))) = min 6 (length uniqueRs) \<and>
     st 0 = snd (search_loop searchQueries 0 [] story_state) \<and>
     st (length (articles (fst (fetchNews story_state)))) = snd (fetchNews story_state) \<and>
     (\<forall>k < length (articles (fst (fetchNews story_state))). \<exists>result new seed.
        uniqueRs ! k = Some result \<and>
        fst (processResult k result (st k)) = articles (fst (fetchNews story_state)) ! k \<and>
        st (Suc k) =
          (if int k < int (length (articles (fst (fetchNews story_state)))) - 1
           then delay (Num 2000) (snd (processResult k result (st k)))
           else snd (processResult k result (st k))) \<and>
        requests (env (st (Suc k))) = requests (env (st k)) @ new \<and>
        seed =
          (case snippet result of
             Some x \<Rightarrow> if x \<noteq> [] then x else (case description result of Some y \<Rightarrow> y | None \<Rightarrow> [])
           | None \<Rightarrow> (case description result of Some y \<Rightarrow> y | None \<Rightarrow> [])) \<and>
        (ExtractFromUrl (link result) \<in> set new \<longleftrightarrow> length seed < 200 \<and> k < 3) \<and>
        (\<forall>u. ExtractFromUrl u \<in> set new \<longrightarrow> u = link result) \<and>
        originalText (articles (fst (fetchNews story_state)) ! k) =
          (if length seed < 200 \<and> k < 3 then
             (case fst (retryWithBackoff (blink_data_extractFromUrl (link result)) 3 1000 (st k)) of
                Inr (Some extracted) \<Rightarrow> if length extracted > 200 then take 2000 extracted else seed
              | Inr None \<Rightarrow> seed
              | Inl e \<Rightarrow> seed)
           else seed))" .
  with story_fetch show ?thesis by blast
qed

text \<open>
  C6. In a run that ends with the processed batch, while the result at position \<open>k\<close> is
  processed a translation request is sent, for the prompt built from the body of the
  \<open>k\<close>-th article, exactly when that body is longer than 50 code units. With a body of
  50 code units or fewer the translated text of the article is the empty string. With a
  longer body, if the translation throws, the translated text is the failure marker
  \<open>translation_failed\<close>, which is neither empty nor the body; if it resolves, it is the
  text of the service.
\<close>

theorem fetchNews_translation:
  assumes "caught (fst (fetchNews s)) = None"
  shows "\<exists>uniqueRs st.
     uniqueResults (fst (search_loop searchQueries 0 [] s)) = Inr uniqueRs \<and>
     length (articles (fst (fetchNews s))) = min 6 (length uniqueRs) \<and>
     st 0 = snd (search_loop searchQueries 0 [] s) \<and>
     st (length (articles (fst (fetchNews s)))) = snd (fetchNews s) \<and>
     (\<forall>k < length (articles (fst (fetchNews s))). \<exists>result new.
        uniqueRs ! k = Some result \<and>
        fst (processResult k result (st k)) = articles (fst (fetchNews s)) ! k \<and>
        st (Suc k) =
          (if int k < int (length (articles (fst (fetchNews s)))) - 1
           then delay (Num 2000) (snd (processResult k result (st k)))
           else snd (processResult k result (st k))) \<and>
        requests (env (st (Suc k))) = requests (env (st k)) @ new \<and>
        ((\<exists>p n. GenerateText p n \<in> set new) \<longleftrightarrow>
           length (originalText (articles (fst (fetchNews s)) ! k)) > 50) \<and>
        (\<forall>p n. GenerateText p n \<in> set new \<longrightarrow>
           p = prompt_prefix @ originalText (articles (fst (fetchNews s)) ! k) @ prompt_suffix \<and>
           n = 1000) \<and>
        (length (originalText (articles (fst (fetchNews s)) ! k)) \<le> 50 \<longrightarrow>
           translatedText (articles (fst (fetchNews s)) ! k) = []) \<and>
        (length (originalText (articles (fst (fetchNews s)) ! k)) > 50 \<longrightarrow>
           (case fst (retryWithBackoff
                       (blink_ai_generateText
                          (prompt_prefix @ originalText (articles (fst (fetchNews s)) ! k) @ prompt_suffix)
                          1000)
                       3 1000
                       (delay (Num 1500)
                          (snd (extractContent k result (seedContent result) (st k))))) of
              Inl e \<Rightarrow>
                translatedText (articles (fst (fetchNews s)) ! k) = translation_failed \<and>
                translatedText (articles (fst (fetchNews s)) ! k) \<noteq> [] \<and>
                translatedText (articles (fst (fetchNews s)) ! k) \<noteq>
                  originalText (articles (fst (fetchNews s)) ! k)
            | Inr None \<Rightarrow> translatedText (articles (fst (fetchNews s)) ! k) = translation_failed
            | Inr (Some translation) \<Rightarrow>
                translatedText (articles (fst (fetchNews s)) ! k) = translation)))"
proof -
  let ?arts = "articles (fst (fetchNews s))"
  from fetchNews_steps [OF assms] obtain uniqueRs st where
    u: "uniqueResults (fst (search_loop searchQueries 0 [] s)) = Inr uniqueRs" and
    len: "length ?arts = min 6 (length uniqueRs)" and
    st0: "st 0 = snd (search_loop searchQueries 0 [] s)" and
    stn: "st (length ?arts) = snd (fetchNews s)" and
    step: "\<forall>k < length ?arts. \<exists>result.
        uniqueRs ! k = Some result \<and>
        fst (processResult k result (st k)) = ?arts ! k \<and>
        st (Suc k) =
          (if int k < int (length ?arts) - 1
           then delay (Num 2000) (snd (processResult k result (st k)))
           else snd (processResult k result (st k)))" by blast
  have each: "\<exists>result new.
        uniqueRs ! k = Some result \<and>
        fst (processResult k result (st k)) = articles (fst (fetchNews s)) ! k \<and>
        st (Suc k) =
          (if int k < int (length (articles (fst (fetchNews s)))) - 1
           then delay (Num 2000) (snd (processResult k result (st k)))
           else snd (processResult k result (st k))) \<and>
        requests (env (st (Suc k))) = requests (env (st k)) @ new \<and>
        ((\<exists>p n. GenerateText p n \<in> set new) \<longleftrightarrow>
           length (originalText (articles (fst (fetchNews s)) ! k)) > 50) \<and>
        (\<forall>p n. GenerateText p n \<in> set new \<longrightarrow>
           p = prompt_prefix @ originalText (articles (fst (fetchNews s)) ! k) @ prompt_suffix \<and>
           n = 1000) \<and>
        (length (originalText (articles (fst (fetchNews s)) ! k)) \<le> 50 \<longrightarrow>
           translatedText (articles (fst (fetchNews s)) ! k) = []) \<and>
        (length (originalText (articles (fst (fetchNews s)) ! k)) > 50 \<longrightarrow>
           (case fst (retryWithBackoff
                       (blink_ai_generateText
                          (prompt_prefix @ originalText (articles (fst (fetchNews s)) ! k) @ prompt_suffix)
                          1000)
                       3 1000
                       (delay (Num 1500)
                          (snd (extractContent k result (seedContent result) (st k))))) of
              Inl e \<Rightarrow>
                translatedText (articles (fst (fetchNews s)) ! k) = translation_failed \<and>
                translatedText (articles (fst (fetchNews s)) ! k) \<noteq> [] \<and>
                translatedText (articles (fst (fetchNews s)) ! k) \<noteq>
                  originalText (articles (fst (fetchNews s)) ! k)
            | Inr None \<Rightarrow> translatedText (articles (fst (fetchNews s)) ! k) = translation_failed
            | Inr (Some translation) \<Rightarrow>
                translatedText (articles (fst (fetchNews s)) ! k) = translation))" if k: "k < length ?arts" for k
  proof -
    from step k obtain result where r: "uniqueRs ! k = Some result"
      "fst (processResult k result (st k)) = ?arts ! k"
      "st (Suc k) =
          (if int k < int (length ?arts) - 1
           then delay (Num 2000) (snd (processResult k result (st k)))
           else snd (processResult k result (st k)))" by blast
    obtain s' where p: "processResult k result (st k) = (?arts ! k, s')"
      using r(2) by (cases "processResult k result (st k)") simp
    from processResult_translation [OF p] obtain new where
      new: "requests (env s') = requests (env (st k)) @ new"
        "(\<exists>p n. GenerateText p n \<in> set new) \<longleftrightarrow> length (originalText (?arts ! k)) > 50"
        "\<forall>p n. GenerateText p n \<in> set new \<longrightarrow>
           p = prompt_prefix @ originalText (?arts ! k) @ prompt_suffix \<and> n = 1000"
        "length (originalText (?arts ! k)) \<le> 50 \<longrightarrow> translatedText (?arts ! k) = []"
        "length (originalText (?arts ! k)) > 50 \<longrightarrow>
           (case fst (retryWithBackoff
                       (blink_ai_generateText
                          (prompt_prefix @ originalText (?arts ! k) @ prompt_suffix) 1000)
                       3 1000
                       (delay (Num 1500)
                          (snd (extractContent k result (seedContent result) (st k))))) of
              Inl e \<Rightarrow>
                translatedText (?arts ! k) = translation_failed \<and>
                translatedText (?arts ! k) \<noteq> [] \<and>
                translatedText (?arts ! k) \<noteq> originalText (?arts ! k)
            | Inr None \<Rightarrow> translatedText (?arts ! k) = translation_failed
            | Inr (Some translation) \<Rightarrow> translatedText (?arts ! k) = translation)" by blast
    have rq: "requests (env (st (Suc k))) = requests (env (st k)) @ new"
      using r(3) p new(1) by (simp add: delay_def)
    show ?thesis
      by (intro exI [of _ result] exI [of _ new] conjI r rq new(2-))
  qed
  show ?thesis
    by (intro exI [of _ uniqueRs] exI [of _ st] conjI allI impI u len st0 stn each)
qed

theorem fetchNews_translation_witness:
  "caught (fst (fetchNews story_state)) = None \<and>
   map originalText (articles (fst (fetchNews story_state))) =
     [replicate 250 0x0078, replicate 2000 0x0079, [], ascii ''Short snippet''] \<and>
   map translatedText (articles (fst (fetchNews story_state))) =
     [ascii ''Translated'',
      [0x7FFB, 0x8A33, 0x306B, 0x5931, 0x6557, 0x3057, 0x307E, 0x3057, 0x305F], [], []] \<and>
   requests (env (snd (fetchNews story_state))) =
     [Search searchQuery1 8, Search searchQuery2 8,
      GenerateText (prompt_prefix @ replicate 250 0x0078 @ prompt_suffix) 1000,
      ExtractFromUrl (ascii ''https://example.com/b''),
      GenerateText (prompt_prefix @ replicate 2000 0x0079 @ prompt_suffix) 1000,
      ExtractFromUrl (ascii ''https://example.com/c'')] \<and>
   (\<exists>uniqueRs st.
     uniqueResults (fst (search_loop searchQueries 0 [] story_state)) = Inr uniqueRs \<and>
     length (articles (fst (fetchNews story_state))) = min 6 (length uniqueRs) \<and>
     st 0 = snd (search_loop searchQueries 0 [] story_state) \<and>
     st (length (articles (fst (fetchNews story_state)))) = snd (fetchNews story_state) \<and>
     (\<forall>k < length (articles (fst (fetchNews story_state))). \<exists>result new.
        uniqueRs ! k = Some result \<and>
        fst (processResult k result (st k)) = articles (fst (fetchNews story_state)) ! k \<and>
        st (Suc k) =
          (if int k < int (length (articles (fst (fetchNews story_state)))) - 1
           then delay (Num 2000) (snd (processResult k result (st k)))
           else snd (processResult k result (st k))) \<and>
        requests (env (st (Suc k))) = requests (env (st k)) @ new \<and>
        ((\<exists>p n. GenerateText p n \<in> set new) \<longleftrightarrow>
           length (originalText (articles (fst (fetchNews story_state)) ! k)) > 50) \<and>
        (\<forall>p n. GenerateText p n \<in> set new \<longrightarrow>
           p = prompt_prefix @ originalText (articles (fst (fetchNews story_state)) ! k) @ prompt_suffix \<and>
           n = 1000) \<and>
        (length (originalText (articles (fst (fetchNews story_state)) ! k)) \<le> 50 \<longrightarrow>
           translatedText (articles (fst (fetchNews story_state)) ! k) = []) \<and>
        (length (originalText (articles (fst (fetchNews story_state)) ! k)) > 50 \<longrightarrow>
           (case fst (retryWithBackoff
                       (blink_ai_generateText
                          (prompt_prefix @ originalText (articles (fst (fetchNews story_state)) ! k) @ prompt_suffix)
                          1000)
                       3 1000
                       (delay (Num 1500)
                          (snd (extractContent k result (seedContent result) (st k))))) of
              Inl e \<Rightarrow>
                translatedText (articles (fst (fetchNews story_state)) ! k) = translation_failed \<and>
                translatedText (articles (fst (fetchNews story_state)) ! k) \<noteq> [] \<and>
                translatedText (articles (fst (fetchNews story_state)) ! k) \<noteq>
                  originalText (articles (fst (fetchNews story_state)) ! k)
            | Inr None \<Rightarrow> translatedText (articles (fst (fetchNews story_state)) ! k) = translation_failed
            | Inr (Some translation) \<Rightarrow>
                translatedText (articles (fst (fetchNews story_state)) ! k) = translation))))"
proof -
  from story_fetch have c: "caught (fst (fetchNews story_state)) = None" by blast
  from fetchNews_translation [OF c] have "\<exists>uniqueRs st.
     uniqueResults (fst (search_loop searchQueries 0 [] story_state)) = Inr uniqueRs \<and>
     length (articles (fst (fetchNews story_state))) = min 6 (length uniqueRs) \<and>
     st 0 = snd (search_loop searchQueries 0 [] story_state) \<and>
     st (length (articles (fst (fetchNews story_state)))) = snd (fetchNews story_state) \<and>
     (\<forall>k < length (articles (fst (fetchNews story_state))). \<exists>result new.
        uniqueRs ! k = Some result \<and>
        fst (processResult k result (st k)) = articles (fst (fetchNews story_state)) ! k \<and>
        st (Suc k) =
          (if int k < int (length (articles (fst (fetchNews story_state)))) - 1
           then delay (Num 2000) (snd (processResult k result (st k)))
           else snd (processResult k result (st k))) \<and>
        requests (env (st (Suc k))) = requests (env (st k)) @ new \<and>
        ((\<exists>p n. GenerateText p n \<in> set new) \<longleftrightarrow>
           length (originalText (articles (fst (fetchNews story_state)) ! k)) > 50) \<and>
        (\<forall>p n. GenerateText p n \<in> set new \<longrightarrow>
           p = prompt_prefix @ originalText (articles (fst (fetchNews story_state)) ! k) @ prompt_suffix \<and>
           n = 1000) \<and>
        (length (originalText (articles (fst (fetchNews story_state)) ! k)) \<le> 50 \<longrightarrow>
           translatedText (articles (fst (fetchNews story_state)) ! k) = []) \<and>
        (length (originalText (articles (fst (fetchNews story_state)) ! k)) > 50 \<longrightarrow>
           (case fst (retryWithBackoff
                       (blink_ai_generateText
                          (prompt_prefix @ originalText (articles (fst (fetchNews story_state)) ! k) @ prompt_suffix)
                          1000)
                       3 1000
                       (delay (Num 1500)
                          (snd (extractContent k result (seedContent result) (st k))))) of
              Inl e \<Rightarrow>
                translatedText (articles (fst (fetchNews story_state)) ! k) = translation_failed \<and>
                translatedText (articles (fst (fetchNews story_state)) ! k) \<noteq> [] \<and>
                translatedText (articles (fst (fetchNews story_state)) ! k) \<noteq>
                  originalText (articles (fst (fetchNews story_state)) ! k)
            | Inr None \<Rightarrow> translatedText (articles (fst (fetchNews story_state)) ! k) = translation_failed
            | Inr (Some translation) \<Rightarrow>
                translatedText (articles (fst (fetchNews story_state)) ! k) = translation)))" .
  with story_fetch show ?thesis by blast
qed

section \<open>The top-level handler\<close>




section \<open>Pacing of the searches\<close>

text \<open>
  C8. The delay of line 72 is inside the \<open>try\<close> block of the iteration, after the
  search. When the first search throws, control passes to the handler of line 75 and the
  second search is sent with no delay in between: the trace of the two searches has no
  \<open>Delayed\<close> event, whereas after a successful first search it has the 2000 ms delay.
\<close>

theorem search_failure_skips_delay:
  "search_loop searchQueries 0 [] flaky_state =
     ([demo_news ''https://example.com/a''],
      \<lparr>env = flaky_env\<lparr>requests := [Search searchQuery1 8, Search searchQuery2 8]\<rparr>,
       trace = [Invoked 0 (Some network_error), Invoked 0 None]\<rparr>) \<and>
   delays (trace (snd (search_loop searchQueries 0 [] flaky_state))) = [] \<and>
   delays (trace (snd (search_loop searchQueries 0 [] demo_state))) = [Num 2000]"
  by (simp add: flaky_search demo_search_trace)

end
